theory Spec2Isabelle
  imports Complex_Main
begin

section \<open>DeerLab \<open>fitmultimodel\<close>: multi-component SNLLS fit with model selection\<close>

text \<open>
  A shallow embedding of \<^verbatim>\<open>src/deerlab/fitmultimodel.py\<close>.

  Conventions of the embedding.
  \<^item> A float64 is a \<open>real\<close>: rounding, overflow, \<open>nan\<close> and \<open>-inf\<close> are outside the model.
    The only infinity the source writes down itself, the upper amplitude bound
    \<^verbatim>\<open>np.inf\<close>, is the constructor \<open>PosInf\<close> of \<open>bound\<close>.
  \<^item> A one-dimensional array is a list, a two-dimensional array the list of its rows.
  \<^item> Every \<^verbatim>\<open>raise\<close> of the source, and every exception of an operation it calls, is a
    value \<open>Inl e\<close> of \<open>py_error + 'a\<close>.
  \<^item> The functions the source imports (\<^verbatim>\<open>snlls\<close>, \<^verbatim>\<open>jacobianest\<close>, \<^verbatim>\<open>hccm\<close>,
    \<^verbatim>\<open>UncertQuant\<close>, \<^verbatim>\<open>goodness_of_fit\<close>, the basis \<^verbatim>\<open>model\<close>, NumPy's generator) are
    not part of the file: they are the fields of the record \<open>env\<close>, and every theorem
    holds for each choice of them. They are taken to be deterministic and to leave the
    generator and the uncertainty objects alone.
  \<^item> \<^verbatim>\<open>parse_multidatasets\<close> is imported as well; the inputs \<open>in_V\<close>, \<open>in_Kmodel\<close>,
    \<open>in_weights\<close> and \<open>in_Vsubsets\<close> are what it returned, with \<open>in_weights\<close> one scalar.
\<close>

subsection \<open>Values and errors\<close>

type_synonym vec = "real list"
type_synonym matrix = "real list list"

datatype py_error =
    ValueError | TypeError | KeyError | IndexError | ZeroDivisionError
  | Raised nat  \<comment> \<open>an exception of an imported function\<close>

datatype bound = Fin real | PosInf

text \<open>The value of an expression that is the Python number \<^verbatim>\<open>0\<close> until an array is added.\<close>

datatype nd = Scalar real | Arr vec

definition bindE :: "('e + 'a) \<Rightarrow> ('a \<Rightarrow> 'e + 'b) \<Rightarrow> 'e + 'b" where
  "bindE m f = (case m of Inl e \<Rightarrow> Inl e | Inr x \<Rightarrow> f x)"

subsection \<open>The NumPy and Python operations the source uses\<close>

text \<open>Elementwise binary operation on two 1-d arrays, with NumPy's broadcasting rule.\<close>

definition np_broadcast2 :: "(real \<Rightarrow> real \<Rightarrow> real) \<Rightarrow> vec \<Rightarrow> vec \<Rightarrow> py_error + vec" where
  "np_broadcast2 f a b =
     (if length a = length b then Inr (map2 f a b)
      else if length a = 1 then Inr (map (f (hd a)) b)
      else if length b = 1 then Inr (map (\<lambda>x. f x (hd b)) a)
      else Inl ValueError)"

text \<open>\<^verbatim>\<open>a[idx]\<close> with an integer index array: an index out of range raises.\<close>

definition np_take :: "vec \<Rightarrow> nat list \<Rightarrow> py_error + vec" where
  "np_take a idx =
     (if list_all (\<lambda>i. i < length a) idx then Inr (map (\<lambda>i. a ! i) idx) else Inl IndexError)"

text \<open>\<^verbatim>\<open>xs[i]\<close> on a Python list, for \<open>i \<ge> 0\<close>.\<close>

definition py_get :: "'a list \<Rightarrow> nat \<Rightarrow> py_error + 'a" where
  "py_get xs i = (if i < length xs then Inr (xs ! i) else Inl IndexError)"

text \<open>\<^verbatim>\<open>K @ v\<close> for a matrix and a vector.\<close>

definition matvec :: "matrix \<Rightarrow> vec \<Rightarrow> py_error + vec" where
  "matvec K v =
     (if list_all (\<lambda>row. length row = length v) K
      then Inr (map (\<lambda>row. sum_list (map2 (*) row v)) K)
      else Inl ValueError)"

text \<open>The matrix with \<open>m\<close> rows whose columns are \<open>cols\<close>.\<close>

definition from_columns :: "nat \<Rightarrow> vec list \<Rightarrow> matrix" where
  "from_columns m cols = map (\<lambda>i. map (\<lambda>c. c ! i) cols) [0..<m]"

definition nd_add :: "nd \<Rightarrow> nd \<Rightarrow> py_error + nd" where
  "nd_add x y =
     (case (x, y) of
        (Scalar s, Scalar t) \<Rightarrow> Inr (Scalar (s + t))
      | (Scalar s, Arr b) \<Rightarrow> Inr (Arr (map (\<lambda>v. s + v) b))
      | (Arr a, Scalar t) \<Rightarrow> Inr (Arr (map (\<lambda>v. v + t) a))
      | (Arr a, Arr b) \<Rightarrow> bindE (np_broadcast2 (+) a b) (\<lambda>c. Inr (Arr c)))"

definition nd_div :: "nd \<Rightarrow> real \<Rightarrow> nd" where
  "nd_div x c = (case x of Scalar s \<Rightarrow> Scalar (s / c) | Arr a \<Rightarrow> Arr (map (\<lambda>v. v / c) a))"

definition nd_times :: "nd \<Rightarrow> real \<Rightarrow> nd" where
  "nd_times x c = (case x of Scalar s \<Rightarrow> Scalar (s * c) | Arr a \<Rightarrow> Arr (map (\<lambda>v. v * c) a))"

text \<open>\<^verbatim>\<open>np.diff\<close> of a 1-d array.\<close>

fun np_diff :: "vec \<Rightarrow> vec" where
  "np_diff (a # b # xs) = (b - a) # np_diff (b # xs)"
| "np_diff xs = []"

text \<open>
  \<^verbatim>\<open>np.trapz(y, x)\<close>: \<^verbatim>\<open>(diff(x) * (y[1:] + y[:-1]) / 2.0).sum()\<close>. A 0-d \<open>y\<close> has no last
  axis to slice, which raises.
\<close>

definition np_trapz :: "nd \<Rightarrow> vec \<Rightarrow> py_error + real" where
  "np_trapz y x =
     (case y of
        Scalar s \<Rightarrow> Inl IndexError
      | Arr ys \<Rightarrow>
          bindE (np_broadcast2 (+) (tl ys) (butlast ys)) (\<lambda>s.
          bindE (np_broadcast2 (*) (np_diff x) s) (\<lambda>p.
          Inr (sum_list (map (\<lambda>v. v / 2) p)))))"

text \<open>
  \<^verbatim>\<open>np.argmin\<close> of a sequence of numbers: one scan that replaces the best index only by
  a strictly smaller value; an empty sequence raises.
\<close>

fun argmin_from :: "real \<Rightarrow> nat \<Rightarrow> nat \<Rightarrow> real list \<Rightarrow> nat" where
  "argmin_from best bi i [] = bi"
| "argmin_from best bi i (x # xs) =
     (if x < best then argmin_from x i (Suc i) xs else argmin_from best bi (Suc i) xs)"

definition np_argmin :: "real list \<Rightarrow> py_error + nat" where
  "np_argmin xs = (case xs of [] \<Rightarrow> Inl ValueError | x # rest \<Rightarrow> Inr (argmin_from x 0 1 rest))"

text \<open>
  \<^verbatim>\<open>a is b\<close> for two \<^verbatim>\<open>int\<close> objects that come from separate computations (here
  \<^verbatim>\<open>len(...)\<close> and \<^verbatim>\<open>nKparam + 1\<close> or the literal \<^verbatim>\<open>0\<close>). CPython keeps one shared
  object for each integer from -5 to 256 and makes a new object for every other result,
  so the two are the same object exactly when they are equal and at most 256.
\<close>

definition py_int_is :: "nat \<Rightarrow> nat \<Rightarrow> bool" where
  "py_int_is a b = (a = b \<and> a \<le> 256)"

subsection \<open>The kernel model and the detection of its arity\<close>

text \<open>
  \<^verbatim>\<open>type(Kmodel) is FunctionType\<close> separates a Python function from everything else; a
  function may raise on the vector it is given.
\<close>

datatype kernel = KMatrix matrix | KFunction "vec \<Rightarrow> py_error + matrix"

text \<open>The kernel after line 146: a matrix has become \<^verbatim>\<open>lambda _: K\<close>.\<close>

definition kernel_call :: "kernel \<Rightarrow> vec \<Rightarrow> py_error + matrix" where
  "kernel_call k p = (case k of KMatrix K \<Rightarrow> Inr K | KFunction f \<Rightarrow> f p)"

text \<open>
  Lines 135-141. \<open>draw g n\<close> is \<^verbatim>\<open>np.random.uniform(size=n)\<close> in generator state \<open>g\<close>: the
  vector and the next state. The bare \<^verbatim>\<open>except\<close> turns every exception of the call into
  one more round. The loop has no other exit, so it is a partial function: \<open>None\<close> is a
  loop that never ends.
\<close>

partial_function (option) probe_loop ::
  "(vec \<Rightarrow> py_error + matrix) \<Rightarrow> ('g \<Rightarrow> nat \<Rightarrow> vec \<times> 'g) \<Rightarrow> nat \<Rightarrow> 'g \<Rightarrow> (nat \<times> 'g) option" where
  "probe_loop f draw nKparam g =
     (if isl (f (fst (draw g (nKparam + 1))))
      then probe_loop f draw (nKparam + 1) (snd (draw g (nKparam + 1)))
      else Some (nKparam + 1, snd (draw g (nKparam + 1))))"

text \<open>Lines 131-146: the detected arity and the generator state afterwards.\<close>

definition detect_arity :: "kernel \<Rightarrow> ('g \<Rightarrow> nat \<Rightarrow> vec \<times> 'g) \<Rightarrow> 'g \<Rightarrow> (nat \<times> 'g) option" where
  "detect_arity k draw g =
     (case k of KFunction f \<Rightarrow> probe_loop f draw 0 g | KMatrix K \<Rightarrow> Some (0, g))"

text \<open>The generator state after the first \<open>k\<close> probes, of sizes \<open>1, ..., k\<close>.\<close>

primrec rng_after :: "('g \<Rightarrow> nat \<Rightarrow> vec \<times> 'g) \<Rightarrow> 'g \<Rightarrow> nat \<Rightarrow> 'g" where
  "rng_after draw g 0 = g"
| "rng_after draw g (Suc k) = snd (draw (rng_after draw g k) (Suc k))"

text \<open>The \<open>k\<close>-th probe (\<open>k \<ge> 1\<close>) calls the kernel on a vector drawn with size \<open>k\<close>.\<close>

definition probe_vector :: "('g \<Rightarrow> nat \<Rightarrow> vec \<times> 'g) \<Rightarrow> 'g \<Rightarrow> nat \<Rightarrow> vec" where
  "probe_vector draw g k = fst (draw (rng_after draw g (k - 1)) k)"

definition probe_succeeds ::
  "(vec \<Rightarrow> py_error + matrix) \<Rightarrow> ('g \<Rightarrow> nat \<Rightarrow> vec \<times> 'g) \<Rightarrow> 'g \<Rightarrow> nat \<Rightarrow> bool" where
  "probe_succeeds f draw g k = (\<not> isl (f (probe_vector draw g k)))"

text \<open>Lines 150-151: the check of the kernel bounds, with \<^verbatim>\<open>is not\<close> on two integers.\<close>

definition check_bounds :: "nat \<Rightarrow> vec \<Rightarrow> vec \<Rightarrow> py_error + unit" where
  "check_bounds nKparam lbK ubK =
     (if \<not> py_int_is (length lbK) nKparam \<or> \<not> py_int_is (length ubK) nKparam
      then Inl ValueError else Inr ())"

subsection \<open>The imported functions\<close>

text \<open>The dictionary that \<^verbatim>\<open>model()\<close> returns.\<close>

record info =
  Start :: vec
  Lower :: vec
  Upper :: vec
  Parameters :: "string list"

text \<open>
  \<open>'g\<close> is the state of NumPy's global generator, \<open>'c\<close> a covariance matrix as \<^verbatim>\<open>hccm\<close>
  returns it, \<open>'u\<close> the data of an \<^verbatim>\<open>UncertQuant\<close> object, \<open>'s\<close> the dictionary of
  \<^verbatim>\<open>goodness_of_fit\<close>.
\<close>

record ('g, 'c, 'u, 's) env =
  seed :: "nat \<Rightarrow> 'g"
    \<comment> \<open>\<^verbatim>\<open>np.random.seed(k)\<close>: the state it sets\<close>
  uniform_unit :: "'g \<Rightarrow> nat \<Rightarrow> vec \<times> 'g"
    \<comment> \<open>\<^verbatim>\<open>np.random.uniform(size=n)\<close>\<close>
  uniform_box :: "'g \<Rightarrow> nat \<Rightarrow> vec \<Rightarrow> vec \<Rightarrow> py_error + (vec \<times> 'g)"
    \<comment> \<open>\<^verbatim>\<open>np.random.uniform(size=n, low=lo, high=hi)\<close>\<close>
  model_info :: info
    \<comment> \<open>\<^verbatim>\<open>model()\<close>\<close>
  model_eval :: "vec \<Rightarrow> vec \<Rightarrow> py_error + vec"
    \<comment> \<open>\<^verbatim>\<open>model(r, p)\<close>\<close>
  snlls :: "vec \<Rightarrow> (vec \<Rightarrow> py_error + matrix) \<Rightarrow> vec \<Rightarrow> vec \<Rightarrow> vec \<Rightarrow> vec \<Rightarrow> bound list
            \<Rightarrow> py_error + (vec \<times> vec)"
    \<comment> \<open>\<^verbatim>\<open>dl.snlls(y, A, par0, lb, ub, lbl, ubl, ...)\<close>: the first two results\<close>
  jacobianest :: "(vec \<Rightarrow> py_error + vec) \<Rightarrow> vec \<Rightarrow> py_error + matrix"
  hccm :: "matrix \<Rightarrow> vec \<Rightarrow> py_error + 'c"
    \<comment> \<open>\<^verbatim>\<open>hccm(J, res, 'HC1')\<close>\<close>
  UncertQuant :: "vec \<Rightarrow> 'c \<Rightarrow> vec \<Rightarrow> bound list \<Rightarrow> py_error + 'u"
    \<comment> \<open>\<^verbatim>\<open>dl.UncertQuant('covariance', fit, cov, lb, ub)\<close>\<close>
  propagate :: "'u \<Rightarrow> (vec \<Rightarrow> py_error + nd) \<Rightarrow> vec \<Rightarrow> py_error + 'u"
    \<comment> \<open>the method \<^verbatim>\<open>propagate(f, zeros)\<close> of an object with this data\<close>
  ci_method :: "'u \<Rightarrow> real \<Rightarrow> py_error + matrix"
    \<comment> \<open>the method \<^verbatim>\<open>ci(p)\<close> of the class, on an object with this data\<close>
  goodness_of_fit :: "vec \<Rightarrow> vec \<Rightarrow> int \<Rightarrow> py_error + 's"

subsection \<open>The arguments\<close>

text \<open>\<open>in_maxModels\<close> is a natural number: a negative one gives the same empty loop as 0.\<close>

record inputs =
  in_V :: vec
  in_Kmodel :: kernel
  in_r :: vec
  in_maxModels :: nat
  in_method :: string
  in_lb :: vec
  in_ub :: vec
  in_lbK :: vec
  in_ubK :: vec
  in_weights :: real
  in_normP :: bool
  in_uqanalysis :: bool
  in_Vsubsets :: "nat list list"

subsection \<open>Bounds of the basis parameters (lines 153-170)\<close>

text \<open>\<^verbatim>\<open>a[mask] = v\<close> with a list of booleans: the mask must be as long as the array.\<close>

definition mask_assign :: "vec \<Rightarrow> bool list \<Rightarrow> real \<Rightarrow> py_error + vec" where
  "mask_assign a msk v =
     (if length msk = length a then Inr (map2 (\<lambda>x m. if m then v else x) a msk)
      else Inl IndexError)"

definition py_max :: "vec \<Rightarrow> py_error + real" where
  "py_max xs = (case xs of [] \<Rightarrow> Inl ValueError | x # rest \<Rightarrow> Inr (fold max rest x))"

definition py_min :: "vec \<Rightarrow> py_error + real" where
  "py_min xs = (case xs of [] \<Rightarrow> Inl ValueError | x # rest \<Rightarrow> Inr (fold min rest x))"

definition resolve_bounds :: "('g, 'c, 'u, 's) env \<Rightarrow> inputs \<Rightarrow> py_error + (vec \<times> vec)" where
  "resolve_bounds env inp =
     (let info = model_info env;
          lb0 = (if in_lb inp = [] then Lower info else in_lb inp);
          ub0 = (if in_ub inp = [] then Upper info else in_ub inp);
          areCenterDistances = map (\<lambda>s. s \<in> set [''Center'', ''Location'']) (Parameters info)
      in if list_ex (\<lambda>b. b) areCenterDistances
         then bindE (py_max (in_r inp)) (\<lambda>hi.
              bindE (mask_assign ub0 areCenterDistances hi) (\<lambda>ub0'.
              bindE (py_min (in_r inp)) (\<lambda>lo.
              bindE (mask_assign lb0 areCenterDistances lo) (\<lambda>lb0'.
              Inr (lb0', ub0')))))
         else Inr (lb0, ub0))"

text \<open>What the code before the loop has fixed.\<close>

record fitctx =
  nKparam :: nat
  nparam :: nat
  lb0 :: vec
  ub0 :: vec

text \<open>
  The context for arity \<open>nK\<close> and the resolved bounds \<open>b\<close>; \<^verbatim>\<open>nparam\<close> is
  \<^verbatim>\<open>len(info['Start'])\<close> (line 155).
\<close>

definition fit_context :: "('g, 'c, 'u, 's) env \<Rightarrow> nat \<Rightarrow> vec \<times> vec \<Rightarrow> fitctx" where
  "fit_context env nK b =
     \<lparr>nKparam = nK, nparam = length (Start (model_info env)), lb0 = fst b, ub0 = snd b\<rparr>"

subsection \<open>\<^verbatim>\<open>nonlinmodel\<close> and \<^verbatim>\<open>Pmodel\<close> (lines 172-211)\<close>

text \<open>The loop of \<^verbatim>\<open>nonlinmodel\<close>: the columns \<^verbatim>\<open>K@Pbasis\<close>, one for each component.\<close>

fun basis_columns ::
  "('g, 'c, 'u, 's) env \<Rightarrow> vec \<Rightarrow> nat \<Rightarrow> matrix \<Rightarrow> vec \<Rightarrow> nat \<Rightarrow> nat \<Rightarrow> py_error + vec list" where
  "basis_columns env r np K par paramsused 0 = Inr []"
| "basis_columns env r np K par paramsused (Suc n) =
     (case np_take par [paramsused..<paramsused + np] of Inl e \<Rightarrow> Inl e | Inr p \<Rightarrow>
       (case model_eval env r p of Inl e \<Rightarrow> Inl e | Inr Pbasis \<Rightarrow>
         (case matvec K Pbasis of Inl e \<Rightarrow> Inl e | Inr col \<Rightarrow>
           (case basis_columns env r np K par (paramsused + np) n of Inl e \<Rightarrow> Inl e
            | Inr rest \<Rightarrow> Inr (col # rest)))))"

definition nonlinmodel ::
  "('g, 'c, 'u, 's) env \<Rightarrow> inputs \<Rightarrow> fitctx \<Rightarrow> vec \<Rightarrow> nat \<Rightarrow> py_error + matrix" where
  "nonlinmodel env inp st par Nmodels =
     bindE (np_take par [0..<nKparam st]) (\<lambda>kp.
     bindE (kernel_call (in_Kmodel inp) kp) (\<lambda>K.
     bindE (basis_columns env (in_r inp) (nparam st) K par (nKparam st) Nmodels) (\<lambda>cols.
     Inr (from_columns (length K) cols))))"

text \<open>The loop of \<^verbatim>\<open>Pmodel\<close> over the amplitudes, from the number \<^verbatim>\<open>0\<close>.\<close>

fun Pmodel_loop ::
  "('g, 'c, 'u, 's) env \<Rightarrow> vec \<Rightarrow> nat \<Rightarrow> vec \<Rightarrow> nat \<Rightarrow> nd \<Rightarrow> vec \<Rightarrow> py_error + nd" where
  "Pmodel_loop env r np nlinpar paramsused Pfit [] = Inr Pfit"
| "Pmodel_loop env r np nlinpar paramsused Pfit (amp # amps) =
     (case np_take nlinpar [paramsused..<paramsused + np] of Inl e \<Rightarrow> Inl e | Inr p \<Rightarrow>
       (case model_eval env r p of Inl e \<Rightarrow> Inl e | Inr b \<Rightarrow>
         (case nd_add Pfit (Arr (map (\<lambda>v. amp * v) b)) of Inl e \<Rightarrow> Inl e
          | Inr Pfit' \<Rightarrow> Pmodel_loop env r np nlinpar (paramsused + np) Pfit' amps)))"

definition Pmodel ::
  "('g, 'c, 'u, 's) env \<Rightarrow> inputs \<Rightarrow> fitctx \<Rightarrow> vec \<Rightarrow> vec \<Rightarrow> py_error + nd" where
  "Pmodel env inp st nlinpar linpar =
     Pmodel_loop env (in_r inp) (nparam st) nlinpar (nKparam st) (Scalar 0) linpar"

subsection \<open>\<^verbatim>\<open>logestimators\<close> (lines 214-240)\<close>

text \<open>The dictionary \<^verbatim>\<open>{'rmsd':[],'aic':[],'aicc':[],'bic':[]}\<close>.\<close>

record functionals =
  f_rmsd :: "real list"
  f_aic :: "real list"
  f_aicc :: "real list"
  f_bic :: "real list"

definition empty_functionals :: functionals where
  "empty_functionals = \<lparr>f_rmsd = [], f_aic = [], f_aicc = [], f_bic = []\<rparr>"

text \<open>
  The last argument is \<open>None\<close> for a value that is not a dictionary (the list \<^verbatim>\<open>[]\<close> of
  line 245). \<^verbatim>\<open>len\<close> gives Python integers, so \<^verbatim>\<open>1/N\<close> and the division by \<^verbatim>\<open>N-Q-1\<close>
  raise when the divisor is zero; \<^verbatim>\<open>SquaredSumRes/N\<close> divides a NumPy float and does
  not raise.

  The values are real numbers. For a positive sum of squared residuals the real
  logarithm is \<^verbatim>\<open>np.log\<close>. For \<^verbatim>\<open>SquaredSumRes = 0\<close> the program stores what NumPy makes of
  \<^verbatim>\<open>np.log(0)\<close>, which is \<^verbatim>\<open>-inf\<close> for a positive weight, in the entries of the AIC, the
  AICc and the BIC; the reals have no such value, and the number that the definition
  puts there (from \<open>ln 0 = 0\<close>) stands for none of the program. Every statement below on
  the value of one of these three entries is therefore made for a positive sum of
  squared residuals only; what is said without that condition (that a value is
  appended, which error is raised, the RMSD) does not depend on the logarithm.
\<close>

definition logestimators ::
  "real \<Rightarrow> vec \<Rightarrow> vec \<Rightarrow> vec \<Rightarrow> vec \<Rightarrow> functionals option \<Rightarrow> py_error + functionals" where
  "logestimators weights V Vfit plin pnonlin functionals =
     (let fs = (case functionals of None \<Rightarrow> empty_functionals | Some d \<Rightarrow> d);
          nParams = int (length pnonlin) + int (length plin);
          Q = nParams + 1;
          N = int (length V)
      in bindE (np_broadcast2 (-) V Vfit) (\<lambda>d.
         let SquaredSumRes = sum_list (map (\<lambda>x. x\<^sup>2) d);
             logprob = weights * real_of_int N * ln (SquaredSumRes / real_of_int N)
         in if N = 0 then Inl ZeroDivisionError
            else let rmsd = weights * sqrt (1 / real_of_int N * SquaredSumRes);
                     aic = logprob + 2 * real_of_int Q
                 in if N - Q - 1 = 0 then Inl ZeroDivisionError
                    else let aicc = logprob + 2 * real_of_int Q
                                    + real_of_int (2 * Q * (Q + 1)) / real_of_int (N - Q - 1);
                             bic = logprob + real_of_int Q * ln (real_of_int N)
                         in Inr \<lparr>f_rmsd = f_rmsd fs @ [rmsd], f_aic = f_aic fs @ [aic],
                                 f_aicc = f_aicc fs @ [aicc], f_bic = f_bic fs @ [bic]\<rparr>))"

text \<open>\<^verbatim>\<open>logest[method]\<close> on the dictionary.\<close>

definition functionals_get :: "functionals \<Rightarrow> string \<Rightarrow> py_error + real list" where
  "functionals_get d m =
     (if m = ''rmsd'' then Inr (f_rmsd d)
      else if m = ''aic'' then Inr (f_aic d)
      else if m = ''aicc'' then Inr (f_aicc d)
      else if m = ''bic'' then Inr (f_bic d)
      else Inl KeyError)"

subsection \<open>The loop over the number of components (lines 243-297)\<close>

text \<open>The containers of lines 244-245.\<close>

record candidates =
  Vfit_all :: "vec list"
  Pfit_all :: "nd list"
  plin_all :: "vec list"
  pnonlin_all :: "vec list"
  nlin_ub_all :: "vec list"
  nlin_lb_all :: "vec list"
  lin_ub_all :: "bound list list"
  lin_lb_all :: "vec list"
  logest :: "functionals option"

definition empty_candidates :: candidates where
  "empty_candidates =
     \<lparr>Vfit_all = [], Pfit_all = [], plin_all = [], pnonlin_all = [], nlin_ub_all = [], nlin_lb_all = [],
      lin_ub_all = [], lin_lb_all = [], logest = None\<rparr>"

definition nlin_lower :: "inputs \<Rightarrow> fitctx \<Rightarrow> nat \<Rightarrow> vec" where
  "nlin_lower inp st Nmodels = in_lbK inp @ concat (replicate Nmodels (lb0 st))"

definition nlin_upper :: "inputs \<Rightarrow> fitctx \<Rightarrow> nat \<Rightarrow> vec" where
  "nlin_upper inp st Nmodels = in_ubK inp @ concat (replicate Nmodels (ub0 st))"

text \<open>
  Lines 264-265: the generator is set to the state of seed 1, whatever its state was,
  and the start values are drawn from there.
\<close>

definition draw_start ::
  "('g, 'c, 'u, 's) env \<Rightarrow> 'g \<Rightarrow> vec \<Rightarrow> vec \<Rightarrow> py_error + (vec \<times> 'g)" where
  "draw_start env g nlin_lb nlin_ub =
     (let g1 = seed env 1 in uniform_box env g1 (length nlin_lb) nlin_lb nlin_ub)"

definition scale :: real where
  "scale = 100"

text \<open>One round of the loop, for \<open>Nmodels\<close> components.\<close>

definition candidate_step ::
  "('g, 'c, 'u, 's) env \<Rightarrow> inputs \<Rightarrow> fitctx \<Rightarrow> nat \<Rightarrow> candidates \<times> 'g
     \<Rightarrow> py_error + (candidates \<times> 'g)" where
  "candidate_step env inp st Nmodels cg =
     (let c = fst cg;
          nlin_lb = nlin_lower inp st Nmodels;
          nlin_ub = nlin_upper inp st Nmodels
      in bindE (draw_start env (snd cg) nlin_lb nlin_ub) (\<lambda>(par0, g').
         let lin_lb = replicate Nmodels 1;
             lin_ub = replicate Nmodels PosInf
         in bindE (snlls env (map (\<lambda>v. v * scale) (in_V inp))
                     (\<lambda>par. nonlinmodel env inp st par Nmodels)
                     par0 nlin_lb nlin_ub lin_lb lin_ub) (\<lambda>(pnonlin, plin_scaled).
            let plin = map (\<lambda>v. v / scale) plin_scaled
            in bindE (nonlinmodel env inp st pnonlin Nmodels) (\<lambda>Kfit.
               bindE (matvec Kfit plin) (\<lambda>Vf.
               bindE (Pmodel env inp st pnonlin plin) (\<lambda>Pf.
               bindE (py_get (Vfit_all c @ [Vf]) (Nmodels - 1)) (\<lambda>Vcur.
               bindE (logestimators (in_weights inp) (in_V inp) Vcur plin pnonlin (logest c))
                 (\<lambda>le.
               Inr (\<lparr>Vfit_all = Vfit_all c @ [Vf], Pfit_all = Pfit_all c @ [Pf],
                     plin_all = plin_all c @ [plin], pnonlin_all = pnonlin_all c @ [pnonlin],
                     nlin_ub_all = nlin_ub_all c @ [nlin_ub], nlin_lb_all = nlin_lb_all c @ [nlin_lb],
                     lin_ub_all = lin_ub_all c @ [lin_ub], lin_lb_all = lin_lb_all c @ [lin_lb],
                     logest = Some le\<rparr>, g')))))))))"

fun candidate_loop ::
  "('g, 'c, 'u, 's) env \<Rightarrow> inputs \<Rightarrow> fitctx \<Rightarrow> nat list \<Rightarrow> candidates \<times> 'g
     \<Rightarrow> py_error + (candidates \<times> 'g)" where
  "candidate_loop env inp st [] cg = Inr cg"
| "candidate_loop env inp st (Nmodels # rest) cg =
     (case candidate_step env inp st Nmodels cg of
        Inl e \<Rightarrow> Inl e
      | Inr cg' \<Rightarrow> candidate_loop env inp st rest cg')"

subsection \<open>Selection of the optimal model (lines 299-312)\<close>

record selected =
  s_idx :: nat
  s_Nopt :: nat
  s_Peval :: "nd list"
  s_fcnals :: "real list"
  s_Pfit :: nd
  s_Vfit :: vec
  s_pnonlin :: vec
  s_plin :: vec
  s_nlin_lb :: vec
  s_nlin_ub :: vec
  s_lin_lb :: vec
  s_lin_ub :: "bound list"

text \<open>
  After a loop of no round \<^verbatim>\<open>logest\<close> is still the list \<^verbatim>\<open>[]\<close>, and indexing a list
  with a string raises.
\<close>

definition select_model :: "string \<Rightarrow> candidates \<Rightarrow> py_error + selected" where
  "select_model m c =
     (case logest c of
        None \<Rightarrow> Inl TypeError
      | Some d \<Rightarrow>
          bindE (functionals_get d m) (\<lambda>fcnals.
          bindE (np_argmin fcnals) (\<lambda>idx.
          bindE (py_get (Pfit_all c) idx) (\<lambda>Pfit.
          bindE (py_get (Vfit_all c) idx) (\<lambda>Vfit.
          bindE (py_get (pnonlin_all c) idx) (\<lambda>pnonlin.
          bindE (py_get (plin_all c) idx) (\<lambda>plin.
          bindE (py_get (nlin_lb_all c) idx) (\<lambda>nlin_lb.
          bindE (py_get (nlin_ub_all c) idx) (\<lambda>nlin_ub.
          bindE (py_get (lin_lb_all c) idx) (\<lambda>lin_lb.
          bindE (py_get (lin_ub_all c) idx) (\<lambda>lin_ub.
          Inr \<lparr>s_idx = idx, s_Nopt = idx + 1, s_Peval = Pfit_all c, s_fcnals = fcnals,
               s_Pfit = Pfit, s_Vfit = Vfit, s_pnonlin = pnonlin, s_plin = plin,
               s_nlin_lb = nlin_lb, s_nlin_ub = nlin_ub, s_lin_lb = lin_lb,
               s_lin_ub = lin_ub\<rparr>)))))))))))"

subsection \<open>Packing of the fitted parameters (lines 314-319)\<close>

text \<open>A Python slice \<^verbatim>\<open>a[i:j]\<close> with \<open>0 \<le> i \<le> j\<close>; it never raises.\<close>

definition py_slice :: "'a list \<Rightarrow> nat \<Rightarrow> nat \<Rightarrow> 'a list" where
  "py_slice a i j = take (j - i) (drop i a)"

definition pack_params :: "fitctx \<Rightarrow> selected \<Rightarrow> vec \<times> vec \<times> vec" where
  "pack_params st sel =
     (py_slice (s_pnonlin sel) 0 (nKparam st),
      py_slice (s_pnonlin sel) (nKparam st) (nKparam st + nparam st),
      s_plin sel)"

subsection \<open>Uncertainty objects\<close>

text \<open>
  An \<^verbatim>\<open>UncertQuant\<close> object lives in a store, at the address that is its index. It
  has its data, and possibly an instance attribute \<^verbatim>\<open>ci\<close> that hides the method of
  the class: the only one the source ever sets is \<^verbatim>\<open>lambda p: Puq_.ci(p)/Pnorm\<close>, kept
  as the address the variable \<^verbatim>\<open>Puq_\<close> holds and the number \<^verbatim>\<open>Pnorm\<close>.
\<close>

record 'u uq_object =
  payload :: 'u
  ci_attr :: "(nat \<times> real) option"

type_synonym 'u store = "'u uq_object list"

definition alloc :: "'u store \<Rightarrow> 'u uq_object \<Rightarrow> 'u store \<times> nat" where
  "alloc h ob = (h @ [ob], length h)"

text \<open>
  \<^verbatim>\<open>copy.deepcopy(obj)\<close>: a new object with the same data; a function held in an
  attribute is not copied but shared.
\<close>

definition deepcopy :: "'u store \<Rightarrow> nat \<Rightarrow> 'u store \<times> nat" where
  "deepcopy h a = alloc h (h ! a)"

definition matrix_div :: "matrix \<Rightarrow> real \<Rightarrow> matrix" where
  "matrix_div m c = map (map (\<lambda>x. x / c)) m"

text \<open>
  The call \<^verbatim>\<open>obj.ci(p)\<close> on the object at address \<open>a\<close>. The attribute of the instance
  calls \<^verbatim>\<open>ci\<close> on another object, which may itself have the attribute, so the call
  need not return: \<open>None\<close> is a recursion without end. An address outside the store
  does not arise in the source.
\<close>

partial_function (option) uq_ci ::
  "('u \<Rightarrow> real \<Rightarrow> py_error + matrix) \<Rightarrow> 'u store \<Rightarrow> nat \<Rightarrow> real \<Rightarrow> (py_error + matrix) option" where
  "uq_ci meth h a p =
     (if a < length h
      then (case ci_attr (h ! a) of
              None \<Rightarrow> Some (meth (payload (h ! a)) p)
            | Some bc \<Rightarrow>
                Option.bind (uq_ci meth h (fst bc) p)
                  (\<lambda>res. Some (bindE res (\<lambda>m. Inr (matrix_div m (snd bc))))))
      else Some (Inl TypeError))"

subsection \<open>Uncertainty quantification of the selected model (lines 321-344)\<close>

text \<open>\<^verbatim>\<open>np.concatenate((A, B), 1)\<close>: the matrices need the same number of rows.\<close>

definition hconcat :: "matrix \<Rightarrow> matrix \<Rightarrow> py_error + matrix" where
  "hconcat A B = (if length A = length B then Inr (map2 (@) A B) else Inl ValueError)"

definition matrix_scale :: "real \<Rightarrow> matrix \<Rightarrow> matrix" where
  "matrix_scale w m = map (map (\<lambda>x. w * x)) m"

text \<open>
  The result is \<open>None\<close> for \<^verbatim>\<open>Puq = []; paramuq = []\<close>, and otherwise the addresses of
  \<^verbatim>\<open>Puq\<close> and \<^verbatim>\<open>paramuq\<close> in the store of the objects that the call has made.
  \<^verbatim>\<open>P_subset[-1]\<close> raises on an empty index array.
\<close>

definition uq_stage ::
  "('g, 'c, 'u, 's) env \<Rightarrow> inputs \<Rightarrow> fitctx \<Rightarrow> selected
     \<Rightarrow> py_error + ((nat \<times> nat) option \<times> 'u store)" where
  "uq_stage env inp st sel =
     (if in_uqanalysis inp then
        (let w = in_weights inp;
             Nopt = s_Nopt sel;
             pnonlin = s_pnonlin sel;
             plin = s_plin sel;
             Knonlin = (\<lambda>par. nonlinmodel env inp st par Nopt)
         in bindE (np_broadcast2 (-) (s_Vfit sel) (in_V inp)) (\<lambda>d.
            let res = map (\<lambda>x. w * x) d
            in bindE (jacobianest env
                        (\<lambda>p. bindE (Knonlin p) (\<lambda>Km. matvec (matrix_scale w Km) plin))
                        pnonlin) (\<lambda>Jnonlin.
               bindE (Knonlin pnonlin) (\<lambda>Km.
               let Jlin = matrix_scale w Km
               in bindE (hconcat Jnonlin Jlin) (\<lambda>J.
                  bindE (hccm env J res) (\<lambda>covmatrix.
                  bindE (UncertQuant env (pnonlin @ plin) covmatrix
                           (s_nlin_lb sel @ s_lin_lb sel)
                           (map Fin (s_nlin_ub sel) @ s_lin_ub sel)) (\<lambda>pu.
                  let (h1, paramuq) = alloc [] \<lparr>payload = pu, ci_attr = None\<rparr>;
                      n = nKparam st + nparam st * Nopt
                  in if n = 0 then Inl IndexError
                     else let P_subset = [0..<n];
                              amps_subset = [n..<n + Nopt]
                          in bindE (propagate env pu
                                      (\<lambda>p. bindE (np_take p P_subset) (\<lambda>a.
                                           bindE (np_take p amps_subset) (\<lambda>b.
                                           Pmodel env inp st a b)))
                                      (replicate (length (in_r inp)) 0)) (\<lambda>qu.
                             let (h2, Puq) = alloc h1 \<lparr>payload = qu, ci_attr = None\<rparr>
                             in Inr (Some (Puq, paramuq), h2)))))))))
      else Inr (None, []))"

subsection \<open>Goodness of fit (lines 346-352)\<close>

datatype 's stats_out = StatsOne 's | StatsList "'s list"

fun gof_loop ::
  "('g, 'c, 'u, 's) env \<Rightarrow> vec \<Rightarrow> vec \<Rightarrow> int \<Rightarrow> nat list list \<Rightarrow> py_error + 's list" where
  "gof_loop env V Vfit k [] = Inr []"
| "gof_loop env V Vfit k (sub # rest) =
     (case np_take V sub of Inl e \<Rightarrow> Inl e | Inr Vs \<Rightarrow>
       (case np_take Vfit sub of Inl e \<Rightarrow> Inl e | Inr Vfs \<Rightarrow>
         (case goodness_of_fit env Vs Vfs (int (length Vs) - k) of Inl e \<Rightarrow> Inl e | Inr s \<Rightarrow>
           (case gof_loop env V Vfit k rest of Inl e \<Rightarrow> Inl e
            | Inr ss \<Rightarrow> Inr (s # ss)))))"

definition gof_stage ::
  "('g, 'c, 'u, 's) env \<Rightarrow> inputs \<Rightarrow> fitctx \<Rightarrow> selected \<Rightarrow> py_error + 's stats_out" where
  "gof_stage env inp st sel =
     bindE (gof_loop env (in_V inp) (s_Vfit sel)
              (int (nKparam st + nparam st + s_Nopt sel)) (in_Vsubsets inp)) (\<lambda>stats.
     Inr (if length stats = 1 then StatsOne (stats ! 0) else StatsList stats))"

subsection \<open>Renormalisation (lines 354-360)\<close>

text \<open>
  The distribution and the store after line 360. NumPy divides by a zero \<^verbatim>\<open>Pnorm\<close>
  without raising; what it returns then is outside the model.
\<close>

definition normalize_stage ::
  "inputs \<Rightarrow> selected \<Rightarrow> (nat \<times> nat) option \<Rightarrow> 'u store \<Rightarrow> py_error + (nd \<times> 'u store)" where
  "normalize_stage inp sel uq h =
     (if in_normP inp then
        bindE (np_trapz (s_Pfit sel) (in_r inp)) (\<lambda>Pnorm.
        let Pfit = nd_div (s_Pfit sel) Pnorm
        in if in_uqanalysis inp then
             (case uq of
                None \<Rightarrow> Inr (Pfit, h)
              | Some (Puq, paramuq) \<Rightarrow>
                  let (h', Puq_copy) = deepcopy h Puq
                  in Inr (Pfit, h'[Puq := (h' ! Puq)\<lparr>ci_attr := Some (Puq_copy, Pnorm)\<rparr>]))
           else Inr (Pfit, h))
      else Inr (s_Pfit sel, h))"

subsection \<open>The function \<^verbatim>\<open>fitmultimodel\<close>\<close>

text \<open>The tuple that line 362 returns, with the store of the objects in it.\<close>

record ('u, 's) fit_result =
  r_Pfit :: nd
  r_fitparam :: "vec \<times> vec \<times> vec"
  r_Puq :: "nat option"
  r_paramuq :: "nat option"
  r_fcnals :: "real list"
  r_Peval :: "nd list"
  r_stats :: "'s stats_out"
  r_store :: "'u store"

text \<open>Lines 148-362, once the arity is known: the result and the state of the generator.\<close>

definition engine_body ::
  "('g, 'c, 'u, 's) env \<Rightarrow> inputs \<Rightarrow> nat \<Rightarrow> 'g \<Rightarrow> py_error + (('u, 's) fit_result \<times> 'g)" where
  "engine_body env inp nK g =
     bindE (check_bounds nK (in_lbK inp) (in_ubK inp)) (\<lambda>_.
     bindE (resolve_bounds env inp) (\<lambda>b.
     let st = fit_context env nK b
     in bindE (candidate_loop env inp st [1..<in_maxModels inp + 1] (empty_candidates, g))
          (\<lambda>(cands, g').
        bindE (select_model (in_method inp) cands) (\<lambda>sel.
        let fitparam = pack_params st sel
        in bindE (uq_stage env inp st sel) (\<lambda>(uq, h).
           bindE (gof_stage env inp st sel) (\<lambda>stats.
           bindE (normalize_stage inp sel uq h) (\<lambda>(Pfit, h').
           Inr (\<lparr>r_Pfit = Pfit, r_fitparam = fitparam, r_Puq = map_option fst uq,
                 r_paramuq = map_option snd uq, r_fcnals = s_fcnals sel,
                 r_Peval = s_Peval sel, r_stats = stats, r_store = h'\<rparr>, g'))))))))"

text \<open>The whole call from generator state \<open>g\<close>; \<open>None\<close> when the probing never ends.\<close>

definition fitmultimodel ::
  "('g, 'c, 'u, 's) env \<Rightarrow> inputs \<Rightarrow> 'g
     \<Rightarrow> (py_error + (('u, 's) fit_result \<times> 'g)) option" where
  "fitmultimodel env inp g =
     map_option (\<lambda>(nK, g'). engine_body env inp nK g')
       (detect_arity (in_Kmodel inp) (uniform_unit env) g)"

subsection \<open>Concrete instances\<close>

text \<open>A generator whose state counts the numbers drawn; every number drawn is 1/2.\<close>

definition demo_draw :: "nat \<Rightarrow> nat \<Rightarrow> vec \<times> nat" where
  "demo_draw g n = (replicate n (1 / 2), g + n)"

text \<open>
  \<^verbatim>\<open>def K(p): a, b = p; return np.zeros((2, 1))\<close>: unpacking raises unless there are two
  parameters.
\<close>

definition two_param_kernel :: "vec \<Rightarrow> py_error + matrix" where
  "two_param_kernel p = (if length p = 2 then Inr [[0], [0]] else Inl ValueError)"

text \<open>A kernel function that raises whatever it is given.\<close>

definition raising_kernel :: "vec \<Rightarrow> py_error + matrix" where
  "raising_kernel p = Inl (Raised 0)"

text \<open>
  Collaborators small enough to run by hand. The generator draws the lower bound, the
  solver returns its start vector and the lower amplitude bound it was given, the basis
  function is constantly 1 and the kernel matrix is zero.
\<close>

definition demo_info :: info where
  "demo_info = \<lparr>Start = [1], Lower = [0], Upper = [2], Parameters = [''Width'']\<rparr>"

definition demo_env :: "(nat, unit, nat, int) env" where
  "demo_env =
     \<lparr>seed = (\<lambda>k. k),
      uniform_unit = demo_draw,
      uniform_box = (\<lambda>g n lo hi. Inr (lo, g + n)),
      model_info = demo_info,
      model_eval = (\<lambda>r p. Inr (map (\<lambda>x. 1) r)),
      snlls = (\<lambda>y A par0 lb ub lbl ubl. Inr (par0, lbl)),
      jacobianest = (\<lambda>f p. Inr [[0], [0], [0], [0], [0]]),
      hccm = (\<lambda>J res. Inr ()),
      UncertQuant = (\<lambda>x c lb ub. Inr 0),
      propagate = (\<lambda>u f z. Inr 1),
      ci_method = (\<lambda>u p. Inr [[0, p]]),
      goodness_of_fit = (\<lambda>a b k. Inr k)\<rparr>"

definition demo_inp :: inputs where
  "demo_inp =
     \<lparr>in_V = [1, 1, 1, 1, 1],
      in_Kmodel = KMatrix [[0, 0], [0, 0], [0, 0], [0, 0], [0, 0]], in_r = [0, 2],
      in_maxModels = 2, in_method = ''aicc'', in_lb = [], in_ub = [], in_lbK = [],
      in_ubK = [], in_weights = 1, in_normP = True, in_uqanalysis = True,
      in_Vsubsets = [[0, 1, 2, 3, 4]]\<rparr>"

definition demo_st :: fitctx where
  "demo_st = \<lparr>nKparam = 0, nparam = 1, lb0 = [0], ub0 = [2]\<rparr>"

text \<open>The containers after the first and after the second round on these.\<close>

definition demo_c1 :: candidates where
  "demo_c1 =
     \<lparr>Vfit_all = [[0, 0, 0, 0, 0]], Pfit_all = [Arr [1 / 100, 1 / 100]],
      plin_all = [[1 / 100]], pnonlin_all = [[0]], nlin_ub_all = [[2]], nlin_lb_all = [[0]],
      lin_ub_all = [[PosInf]], lin_lb_all = [[1]],
      logest = Some \<lparr>f_rmsd = [1], f_aic = [6], f_aicc = [30], f_bic = [3 * ln 5]\<rparr>\<rparr>"

definition demo_c2 :: candidates where
  "demo_c2 =
     \<lparr>Vfit_all = [[0, 0, 0, 0, 0], [0, 0, 0, 0, 0]],
      Pfit_all = [Arr [1 / 100, 1 / 100], Arr [1 / 50, 1 / 50]],
      plin_all = [[1 / 100], [1 / 100, 1 / 100]],
      pnonlin_all = [[0], [0, 0]], nlin_ub_all = [[2], [2, 2]], nlin_lb_all = [[0], [0, 0]],
      lin_ub_all = [[PosInf], [PosInf, PosInf]], lin_lb_all = [[1], [1, 1]],
      logest = Some \<lparr>f_rmsd = [1, 1], f_aic = [6, 10], f_aicc = [30, - 50],
                      f_bic = [3 * ln 5, 5 * ln 5]\<rparr>\<rparr>"

text \<open>The selection, the uncertainty objects and the result on the concrete instance.\<close>

definition demo_sel :: selected where
  "demo_sel =
     \<lparr>s_idx = 1, s_Nopt = 2, s_Peval = [Arr [1 / 100, 1 / 100], Arr [1 / 50, 1 / 50]],
      s_fcnals = [30, - 50], s_Pfit = Arr [1 / 50, 1 / 50], s_Vfit = [0, 0, 0, 0, 0],
      s_pnonlin = [0, 0], s_plin = [1 / 100, 1 / 100], s_nlin_lb = [0, 0],
      s_nlin_ub = [2, 2], s_lin_lb = [1, 1], s_lin_ub = [PosInf, PosInf]\<rparr>"

definition demo_store :: "nat store" where
  "demo_store = [\<lparr>payload = 0, ci_attr = None\<rparr>, \<lparr>payload = 1, ci_attr = None\<rparr>]"

definition demo_res :: "(nat, int) fit_result" where
  "demo_res =
     \<lparr>r_Pfit = Arr [1 / 2, 1 / 2], r_fitparam = ([], [0], [1 / 100, 1 / 100]),
      r_Puq = Some 1, r_paramuq = Some 0, r_fcnals = [30, - 50],
      r_Peval = [Arr [1 / 100, 1 / 100], Arr [1 / 50, 1 / 50]], r_stats = StatsOne 2,
      r_store = [\<lparr>payload = 0, ci_attr = None\<rparr>,
                 \<lparr>payload = 1, ci_attr = Some (2, 1 / 25)\<rparr>,
                 \<lparr>payload = 1, ci_attr = None\<rparr>]\<rparr>"

subsection \<open>Notions used in the statements\<close>

text \<open>Every container holds \<open>n\<close> entries; the dictionary exists once a round has run.\<close>

definition containers_hold :: "nat \<Rightarrow> candidates \<Rightarrow> bool" where
  "containers_hold n c =
     (length (Vfit_all c) = n \<and> length (Pfit_all c) = n \<and> length (plin_all c) = n
      \<and> length (pnonlin_all c) = n \<and> length (nlin_ub_all c) = n
      \<and> length (nlin_lb_all c) = n \<and> length (lin_ub_all c) = n \<and> length (lin_lb_all c) = n
      \<and> (case logest c of
            None \<Rightarrow> n = 0
          | Some d \<Rightarrow> 0 < n \<and> length (f_rmsd d) = n \<and> length (f_aic d) = n
                       \<and> length (f_aicc d) = n \<and> length (f_bic d) = n))"

text \<open>A number below a bound that may be infinite.\<close>

definition below :: "real \<Rightarrow> bound \<Rightarrow> bool" where
  "below v b = (case b of PosInf \<Rightarrow> True | Fin u \<Rightarrow> v \<le> u)"

text \<open>A box that has a point, and a vector inside a box.\<close>

definition box_ok :: "vec \<Rightarrow> bound list \<Rightarrow> bool" where
  "box_ok lo hi =
     (length hi = length lo \<and> list_all (\<lambda>i. below (lo ! i) (hi ! i)) [0..<length lo])"

definition within_box :: "vec \<Rightarrow> vec \<Rightarrow> bound list \<Rightarrow> bool" where
  "within_box x lo hi =
     (length x = length lo \<and> length hi = length lo
      \<and> list_all (\<lambda>i. lo ! i \<le> x ! i \<and> below (x ! i) (hi ! i)) [0..<length x])"

text \<open>
  The assumption on the solver: the linear parameters it returns lie in the box it was
  given for them, whenever that box has a point.
\<close>

definition solver_respects_box :: "('g, 'c, 'u, 's) env \<Rightarrow> bool" where
  "solver_respects_box env =
     (\<forall>y A par0 lb ub lbl ubl pnl pl.
        snlls env y A par0 lb ub lbl ubl = Inr (pnl, pl) \<and> box_ok lbl ubl
          \<longrightarrow> within_box pl lbl ubl)"

text \<open>
  The assumption on the generator: a draw between two sides of the size asked for, the
  lower one not above the upper one, has that size and lies between them.
\<close>

definition draws_within :: "('g, 'c, 'u, 's) env \<Rightarrow> bool" where
  "draws_within env =
     (\<forall>g lo hi v g'.
        uniform_box env g (length lo) lo hi = Inr (v, g')
        \<and> length hi = length lo \<and> (\<forall>i<length lo. lo ! i \<le> hi ! i) \<longrightarrow>
          length v = length lo \<and> (\<forall>i<length lo. lo ! i \<le> v ! i \<and> v ! i \<le> hi ! i))"


text \<open>
  Entry \<open>k\<close> of the containers is the fit with \<open>k + 1\<close> components: its start vector is
  drawn from the state of seed 1 inside the bounds of that round, its parameters are
  what the solver returned for that round (the linear ones divided by \<open>scale\<close>), its
  signal and distribution are rebuilt from them, and entry \<open>k\<close> of each criterion is
  what \<^verbatim>\<open>logestimators\<close> computes from them.
\<close>

definition fitted_entry ::
  "('g, 'c, 'u, 's) env \<Rightarrow> inputs \<Rightarrow> fitctx \<Rightarrow> candidates \<Rightarrow> nat \<Rightarrow> bool" where
  "fitted_entry env inp st c k =
     (\<exists>par0 gs plin_scaled Kfit fs.
        uniform_box env (seed env 1) (length (nlin_lower inp st (Suc k)))
          (nlin_lower inp st (Suc k)) (nlin_upper inp st (Suc k)) = Inr (par0, gs)
      \<and> snlls env (map (\<lambda>v. v * scale) (in_V inp)) (\<lambda>par. nonlinmodel env inp st par (Suc k))
          par0 (nlin_lower inp st (Suc k)) (nlin_upper inp st (Suc k))
          (replicate (Suc k) 1) (replicate (Suc k) PosInf)
          = Inr (pnonlin_all c ! k, plin_scaled)
      \<and> plin_all c ! k = map (\<lambda>v. v / scale) plin_scaled
      \<and> nonlinmodel env inp st (pnonlin_all c ! k) (Suc k) = Inr Kfit
      \<and> matvec Kfit (plin_all c ! k) = Inr (Vfit_all c ! k)
      \<and> Pmodel env inp st (pnonlin_all c ! k) (plin_all c ! k) = Inr (Pfit_all c ! k)
      \<and> nlin_lb_all c ! k = nlin_lower inp st (Suc k)
      \<and> nlin_ub_all c ! k = nlin_upper inp st (Suc k)
      \<and> lin_lb_all c ! k = replicate (Suc k) 1
      \<and> lin_ub_all c ! k = replicate (Suc k) PosInf
      \<and> logest c = Some fs
      \<and> logestimators (in_weights inp) (in_V inp) (Vfit_all c ! k) (plin_all c ! k)
          (pnonlin_all c ! k) None
          = Inr \<lparr>f_rmsd = [f_rmsd fs ! k], f_aic = [f_aic fs ! k],
                 f_aicc = [f_aicc fs ! k], f_bic = [f_bic fs ! k]\<rparr>)"

text \<open>
  Two more assumptions, for the detection of the arity: a draw of the generator has the
  size asked for, and whether the kernel function raises depends only on the number of
  parameters it is given (as when it unpacks them).
\<close>

definition unit_draw_sized :: "('g, 'c, 'u, 's) env \<Rightarrow> bool" where
  "unit_draw_sized env = (\<forall>g n. length (fst (uniform_unit env g n)) = n)"

definition raises_by_length :: "kernel \<Rightarrow> bool" where
  "raises_by_length k =
     (case k of
        KMatrix K \<Rightarrow> True
      | KFunction f \<Rightarrow> (\<forall>v w. length v = length w \<longrightarrow> isl (f v) = isl (f w)))"

(* DEFS-END *)

section \<open>Properties\<close>

subsection \<open>Basic facts\<close>

lemma bindE_simps [simp]:
  "bindE (Inl e) f = Inl e" "bindE (Inr x) f = f x"
  by (simp_all add: bindE_def)

lemma bindE_eq_Inr:
  "bindE m f = Inr y \<longleftrightarrow> (\<exists>x. m = Inr x \<and> f x = Inr y)"
  by (cases m) simp_all

subsection \<open>Arity detection\<close>

text \<open>
  If the probes after \<open>n\<close> fail up to the first success at \<open>m\<close>, the loop entered with
  \<open>nKparam = n\<close> leaves with \<open>m\<close>.
\<close>

lemma probe_loop_reaches:
  "n < m \<Longrightarrow> probe_succeeds f draw g m
   \<Longrightarrow> (\<And>k. n < k \<Longrightarrow> k < m \<Longrightarrow> \<not> probe_succeeds f draw g k)
   \<Longrightarrow> probe_loop f draw n (rng_after draw g n) = Some (m, rng_after draw g m)"
proof (induction "m - n" arbitrary: n)
  case 0
  then show ?case by simp
next
  case (Suc d)
  show ?case
  proof (cases "Suc n = m")
    case True
    with Suc.prems(2) show ?thesis
      by (subst probe_loop.simps) (auto simp: probe_succeeds_def probe_vector_def)
  next
    case False
    with Suc.prems(1) have lt: "Suc n < m" by simp
    have fail: "\<not> probe_succeeds f draw g (Suc n)"
      using Suc.prems(3)[of "Suc n"] lt by simp
    have "d = m - Suc n" using Suc.hyps(2) by simp
    from Suc.hyps(1)[OF this lt Suc.prems(2)] Suc.prems(3)
    have IH: "probe_loop f draw (Suc n) (rng_after draw g (Suc n)) = Some (m, rng_after draw g m)"
      by simp
    show ?thesis
      using fail IH
      by (subst probe_loop.simps) (simp add: probe_succeeds_def probe_vector_def)
  qed
qed

text \<open>A loop that returns has seen a probe succeed.\<close>

lemma probe_loop_some_succeeds:
  "probe_loop f draw n g0 = Some y \<Longrightarrow> g0 = rng_after draw g n
   \<Longrightarrow> \<exists>m>n. probe_succeeds f draw g m"
proof (induction arbitrary: g rule: probe_loop.raw_induct[rotated 1, consumes 1])
  case (1 probe_loop' f draw nKparam g0 y)
  show ?case
  proof (cases "isl (f (fst (draw g0 (nKparam + 1))))")
    case True
    with 1(2) have "probe_loop' f draw (nKparam + 1) (snd (draw g0 (nKparam + 1))) = Some y"
      by simp
    from 1(1)[OF this, of g] 1(3)
    obtain m where "m > nKparam + 1" "probe_succeeds f draw g m" by auto
    then show ?thesis by (intro exI[of _ m]) simp
  next
    case False
    with 1(3) have "probe_succeeds f draw g (nKparam + 1)"
      by (simp add: probe_succeeds_def probe_vector_def)
    then show ?thesis by (intro exI[of _ "nKparam + 1"]) simp
  qed
qed

lemma probe_loop_never:
  assumes "\<And>k. 1 \<le> k \<Longrightarrow> \<not> probe_succeeds f draw g k"
  shows "probe_loop f draw 0 g = None"
proof (cases "probe_loop f draw 0 g")
  case None
  then show ?thesis .
next
  case (Some y)
  from probe_loop_some_succeeds[OF Some, of g] assms show ?thesis by force
qed

text \<open>
  Claim C4, as the code has it. For a kernel function the probes use vectors drawn with
  sizes 1, 2, 3, ... and the detected arity is the size of the first probe that does not
  raise; the loop has no bound and raises nothing itself, so when every probe raises it
  never ends. For a kernel matrix the arity is 0, the generator is not used, and the
  kernel is the constant function that returns the matrix.
\<close>

theorem arity_detection_first_success:
  "(1 \<le> m \<and> probe_succeeds f draw g m
      \<and> (\<forall>k. 1 \<le> k \<and> k < m \<longrightarrow> \<not> probe_succeeds f draw g k)
     \<longrightarrow> detect_arity (KFunction f) draw g = Some (m, rng_after draw g m))
   \<and> ((\<forall>k. 1 \<le> k \<longrightarrow> \<not> probe_succeeds f draw g k)
     \<longrightarrow> detect_arity (KFunction f) draw g = None)
   \<and> detect_arity (KMatrix K) draw g = Some (0, g)
   \<and> kernel_call (KMatrix K) p = Inr K"
proof (intro conjI impI)
  assume a: "1 \<le> m \<and> probe_succeeds f draw g m
      \<and> (\<forall>k. 1 \<le> k \<and> k < m \<longrightarrow> \<not> probe_succeeds f draw g k)"
  then have "probe_loop f draw 0 (rng_after draw g 0) = Some (m, rng_after draw g m)"
    by (intro probe_loop_reaches) auto
  then show "detect_arity (KFunction f) draw g = Some (m, rng_after draw g m)"
    by (simp add: detect_arity_def)
next
  assume "\<forall>k. 1 \<le> k \<longrightarrow> \<not> probe_succeeds f draw g k"
  then show "detect_arity (KFunction f) draw g = None"
    by (simp add: detect_arity_def probe_loop_never)
next
  show "detect_arity (KMatrix K) draw g = Some (0, g)"
    by (simp add: detect_arity_def)
next
  show "kernel_call (KMatrix K) p = Inr K"
    by (simp add: kernel_call_def)
qed

theorem arity_detection_first_success_witness:
  "detect_arity (KFunction two_param_kernel) demo_draw 0 = Some (2, 3)
   \<and> detect_arity (KFunction raising_kernel) demo_draw 7 = None
   \<and> detect_arity (KMatrix [[1]]) demo_draw 7 = Some (0, 7)"
proof -
  have s2: "probe_succeeds two_param_kernel demo_draw 0 2"
    by (simp add: probe_succeeds_def probe_vector_def two_param_kernel_def demo_draw_def)
  have f1: "\<forall>k. 1 \<le> k \<and> k < 2 \<longrightarrow> \<not> probe_succeeds two_param_kernel demo_draw 0 k"
  proof (intro allI impI)
    fix k :: nat assume "1 \<le> k \<and> k < 2"
    then have "k = 1" by simp
    then show "\<not> probe_succeeds two_param_kernel demo_draw 0 k"
      by (simp add: probe_succeeds_def probe_vector_def two_param_kernel_def demo_draw_def)
  qed
  have r: "rng_after demo_draw 0 2 = 3"
    by (simp add: numeral_2_eq_2 demo_draw_def)
  have nv: "\<forall>k. 1 \<le> k \<longrightarrow> \<not> probe_succeeds raising_kernel demo_draw 7 k"
    by (simp add: probe_succeeds_def raising_kernel_def)
  show ?thesis
    using arity_detection_first_success[of 2 two_param_kernel demo_draw 0 "[[1]]" "[]"]
      arity_detection_first_success[of 1 raising_kernel demo_draw 7 "[[1]]" "[]"]
      s2 f1 r nv
    by simp
qed

text \<open>
  Claim C4 as stated fails: on a kernel function that always raises, the detection
  neither returns an arity nor raises a configuration error after some bound; it does
  not end.
\<close>

theorem arity_detection_unbounded:
  "detect_arity (KFunction raising_kernel) demo_draw 0 = None"
  by (simp add: detect_arity_def probe_loop_never probe_succeeds_def raising_kernel_def)

subsection \<open>The check of the kernel bounds\<close>

text \<open>A bound of the wrong length always raises, and up to arity 256 only that does.\<close>

lemma check_bounds_mismatch:
  "length lbK \<noteq> nK \<or> length ubK \<noteq> nK \<Longrightarrow> check_bounds nK lbK ubK = Inl ValueError"
  by (auto simp: check_bounds_def py_int_is_def)

lemma check_bounds_Inr:
  "check_bounds nK lbK ubK = Inr u \<longleftrightarrow> length lbK = nK \<and> length ubK = nK \<and> nK \<le> 256"
  by (auto simp: check_bounds_def py_int_is_def)

text \<open>
  Claim C8: bounds of a length other than the detected arity raise before the loop, and
  bounds of that length do not. The first half holds (\<open>check_bounds_mismatch\<close>). The
  second fails from arity 257 on: the lengths are compared with \<^verbatim>\<open>is not\<close>, the
  identity of the integer objects, and \<^verbatim>\<open>len(lbK)\<close> is then never the object \<^verbatim>\<open>nKparam\<close>.
  With 257 kernel parameters and 257 bounds on each side the check raises.
\<close>

theorem check_bounds_large_arity:
  "check_bounds 257 (replicate 257 0) (replicate 257 1) = Inl ValueError"
  by (simp add: check_bounds_def py_int_is_def)

theorem check_bounds_large_arity_witness:
  "length (replicate 257 (0::real)) = 257 \<and> length (replicate 257 (1::real)) = 257
   \<and> check_bounds 257 (replicate 257 0) (replicate 257 1) \<noteq> Inr ()"
  using check_bounds_large_arity by simp

subsection \<open>\<^verbatim>\<open>np.argmin\<close>\<close>

text \<open>
  The scan keeps the first index of the least value seen: \<open>ys\<close> is the whole sequence,
  \<open>xs\<close> what is left of it from index \<open>i\<close> on.
\<close>

lemma argmin_from_spec:
  "bi < i \<Longrightarrow> i + length xs = length ys \<Longrightarrow> drop i ys = xs \<Longrightarrow> best = ys ! bi
   \<Longrightarrow> (\<forall>k<i. best \<le> ys ! k) \<Longrightarrow> (\<forall>k<bi. best < ys ! k)
   \<Longrightarrow> argmin_from best bi i xs < length ys
       \<and> (\<forall>k<length ys. ys ! argmin_from best bi i xs \<le> ys ! k)
       \<and> (\<forall>k<argmin_from best bi i xs. ys ! argmin_from best bi i xs < ys ! k)"
proof (induction xs arbitrary: best bi i)
  case Nil
  then show ?case by simp
next
  case (Cons x xs)
  have i_lt: "i < length ys" using Cons.prems(2) by simp
  have x_eq: "x = ys ! i"
    using Cons.prems(3) i_lt by (metis nth_via_drop)
  have dr: "drop (Suc i) ys = xs"
    using Cons.prems(3) by (metis drop_Suc tl_drop list.sel(3))
  have len: "Suc i + length xs = length ys" using Cons.prems(2) by simp
  show ?case
  proof (cases "x < best")
    case True
    have a: "\<forall>k<Suc i. x \<le> ys ! k"
    proof (intro allI impI)
      fix k assume "k < Suc i"
      then show "x \<le> ys ! k"
        using Cons.prems(5) True x_eq by (cases "k = i") (auto simp: less_Suc_eq)
    qed
    have b: "\<forall>k<i. x < ys ! k"
      using Cons.prems(5) True by fastforce
    from Cons.IH[of i "Suc i" x, OF _ len dr x_eq a b] True
    show ?thesis by simp
  next
    case False
    have a: "\<forall>k<Suc i. best \<le> ys ! k"
      using Cons.prems(5) False x_eq by (auto simp: less_Suc_eq)
    from Cons.IH[of bi "Suc i" best, OF _ len dr Cons.prems(4) a Cons.prems(6)] Cons.prems(1) False
    show ?thesis by simp
  qed
qed

lemma np_argmin_spec:
  assumes "xs \<noteq> []"
  shows "\<exists>j. np_argmin xs = Inr j \<and> j < length xs
           \<and> (\<forall>k<length xs. xs ! j \<le> xs ! k) \<and> (\<forall>k<j. xs ! j < xs ! k)"
proof -
  from assms obtain x rest where xs: "xs = x # rest" by (cases xs) auto
  have "argmin_from x 0 1 rest < length xs
       \<and> (\<forall>k<length xs. xs ! argmin_from x 0 1 rest \<le> xs ! k)
       \<and> (\<forall>k<argmin_from x 0 1 rest. xs ! argmin_from x 0 1 rest < xs ! k)"
    by (rule argmin_from_spec) (simp_all add: xs)
  then show ?thesis by (simp add: np_argmin_def xs)
qed

subsection \<open>The estimators of one candidate\<close>

text \<open>The three ways \<^verbatim>\<open>logestimators\<close> can end.\<close>

lemma logestimators_value:
  assumes d: "np_broadcast2 (-) V Vfit = Inr d"
    and N: "V \<noteq> []"
    and Q: "int (length V) - (int (length pnonlin) + int (length plin) + 1) - 1 \<noteq> 0"
  shows "logestimators w V Vfit plin pnonlin fo =
     Inr \<lparr>f_rmsd = f_rmsd (case fo of None \<Rightarrow> empty_functionals | Some x \<Rightarrow> x)
            @ [w * sqrt (1 / real (length V) * sum_list (map (\<lambda>x. x\<^sup>2) d))],
          f_aic = f_aic (case fo of None \<Rightarrow> empty_functionals | Some x \<Rightarrow> x)
            @ [w * real (length V) * ln (sum_list (map (\<lambda>x. x\<^sup>2) d) / real (length V))
               + 2 * real (length pnonlin + length plin + 1)],
          f_aicc = f_aicc (case fo of None \<Rightarrow> empty_functionals | Some x \<Rightarrow> x)
            @ [w * real (length V) * ln (sum_list (map (\<lambda>x. x\<^sup>2) d) / real (length V))
               + 2 * real (length pnonlin + length plin + 1)
               + real_of_int (2 * (int (length pnonlin) + int (length plin) + 1)
                                * (int (length pnonlin) + int (length plin) + 1 + 1))
                 / real_of_int (int (length V)
                                - (int (length pnonlin) + int (length plin) + 1) - 1)],
          f_bic = f_bic (case fo of None \<Rightarrow> empty_functionals | Some x \<Rightarrow> x)
            @ [w * real (length V) * ln (sum_list (map (\<lambda>x. x\<^sup>2) d) / real (length V))
               + real (length pnonlin + length plin + 1) * ln (real (length V))]\<rparr>"
  using assms by (simp add: logestimators_def Let_def)

lemma logestimators_zero_division:
  assumes d: "np_broadcast2 (-) V Vfit = Inr d"
    and Q: "V = [] \<or> int (length V) - (int (length pnonlin) + int (length plin) + 1) - 1 = 0"
  shows "logestimators w V Vfit plin pnonlin fo = Inl ZeroDivisionError"
  using assms by (auto simp add: logestimators_def Let_def)

lemma logestimators_shape:
  assumes d: "np_broadcast2 (-) V Vfit = Inl e"
  shows "logestimators w V Vfit plin pnonlin fo = Inl e"
  using assms by (auto simp add: logestimators_def Let_def)

text \<open>
  Claim C3, as the code has it. With \<open>N\<close> the length of the signal,
  \<open>Q = p_lin + p_nl + 1\<close> and a fitted signal whose shape goes with the signal, a
  candidate with \<open>N - Q - 1 \<le> 0\<close> is not reported as a degenerate model. When \<open>N = 0\<close>
  or \<open>N - Q - 1 = 0\<close> a division of two Python integers raises \<^verbatim>\<open>ZeroDivisionError\<close> and
  no estimator is stored. When \<open>N \<ge> 1\<close> and \<open>N - Q - 1 < 0\<close> nothing is raised and one
  entry is appended to each of the four sequences; for a positive sum of squared
  residuals \<open>S\<close> the entry of the AICc is the number
  \<open>logprob + 2Q + 2Q(Q+1)/(N - Q - 1)\<close>. (For \<open>S = 0\<close> the entry is what NumPy makes of
  \<^verbatim>\<open>np.log(0)\<close>, which is not a real number; nothing is said of it.)
\<close>

theorem aicc_without_guard:
  "np_broadcast2 (-) V Vfit = Inr d \<longrightarrow>
     (V = [] \<or> int (length V) - (int (length pnonlin) + int (length plin) + 1) - 1 = 0
        \<longrightarrow> logestimators w V Vfit plin pnonlin fo = Inl ZeroDivisionError)
   \<and> (V \<noteq> [] \<and> int (length V) - (int (length pnonlin) + int (length plin) + 1) - 1 < 0
        \<longrightarrow> (\<exists>fs r a ac b. logestimators w V Vfit plin pnonlin fo = Inr fs
              \<and> f_rmsd fs = f_rmsd (case fo of None \<Rightarrow> empty_functionals | Some x \<Rightarrow> x) @ [r]
              \<and> f_aic fs = f_aic (case fo of None \<Rightarrow> empty_functionals | Some x \<Rightarrow> x) @ [a]
              \<and> f_aicc fs = f_aicc (case fo of None \<Rightarrow> empty_functionals | Some x \<Rightarrow> x) @ [ac]
              \<and> f_bic fs = f_bic (case fo of None \<Rightarrow> empty_functionals | Some x \<Rightarrow> x) @ [b]
              \<and> (0 < sum_list (map (\<lambda>x. x\<^sup>2) d) \<longrightarrow>
                   ac = w * real (length V)
                          * ln (sum_list (map (\<lambda>x. x\<^sup>2) d) / real (length V))
                        + 2 * real (length pnonlin + length plin + 1)
                        + real_of_int (2 * (int (length pnonlin) + int (length plin) + 1)
                                         * (int (length pnonlin) + int (length plin) + 1 + 1))
                          / real_of_int (int (length V)
                                - (int (length pnonlin) + int (length plin) + 1) - 1))))"
proof (intro impI conjI)
  assume d: "np_broadcast2 (-) V Vfit = Inr d"
  assume "V = [] \<or> int (length V) - (int (length pnonlin) + int (length plin) + 1) - 1 = 0"
  with d show "logestimators w V Vfit plin pnonlin fo = Inl ZeroDivisionError"
    by (rule logestimators_zero_division)
next
  assume d: "np_broadcast2 (-) V Vfit = Inr d"
  assume a: "V \<noteq> [] \<and> int (length V) - (int (length pnonlin) + int (length plin) + 1) - 1 < 0"
  then have nz: "int (length V) - (int (length pnonlin) + int (length plin) + 1) - 1 \<noteq> 0"
    by simp
  note val = logestimators_value[of V Vfit d pnonlin plin w fo, OF d conjunct1[OF a] nz]
  show "\<exists>fs r a ac b. logestimators w V Vfit plin pnonlin fo = Inr fs
      \<and> f_rmsd fs = f_rmsd (case fo of None \<Rightarrow> empty_functionals | Some x \<Rightarrow> x) @ [r]
      \<and> f_aic fs = f_aic (case fo of None \<Rightarrow> empty_functionals | Some x \<Rightarrow> x) @ [a]
      \<and> f_aicc fs = f_aicc (case fo of None \<Rightarrow> empty_functionals | Some x \<Rightarrow> x) @ [ac]
      \<and> f_bic fs = f_bic (case fo of None \<Rightarrow> empty_functionals | Some x \<Rightarrow> x) @ [b]
      \<and> (0 < sum_list (map (\<lambda>x. x\<^sup>2) d) \<longrightarrow>
           ac = w * real (length V)
                  * ln (sum_list (map (\<lambda>x. x\<^sup>2) d) / real (length V))
                + 2 * real (length pnonlin + length plin + 1)
                + real_of_int (2 * (int (length pnonlin) + int (length plin) + 1)
                                 * (int (length pnonlin) + int (length plin) + 1 + 1))
                  / real_of_int (int (length V)
                        - (int (length pnonlin) + int (length plin) + 1) - 1))"
    unfolding val by simp
qed

theorem aicc_without_guard_witness:
  "logestimators 1 [] [] [2] [3] None = Inl ZeroDivisionError
   \<and> logestimators 1 [1, 1, 1, 1] [0, 0, 0, 0] [2] [3] None = Inl ZeroDivisionError
   \<and> (\<exists>fs. logestimators 1 [1] [0] [2] [3] None = Inr fs \<and> f_aicc fs = [- 2])"
proof -
  have d0: "np_broadcast2 (-) [] [] = Inr []"
    by (simp add: np_broadcast2_def)
  have d4: "np_broadcast2 (-) [1, 1, 1, 1] [0, 0, 0, 0] = Inr [1, 1, 1, 1]"
    by (simp add: np_broadcast2_def)
  have d1: "np_broadcast2 (-) [1] [0] = Inr [1]"
    by (simp add: np_broadcast2_def)
  have 0: "logestimators 1 [] [] [2] [3] None = Inl ZeroDivisionError"
    using aicc_without_guard[of "[]" "[]" "[]" "[3]" "[2]" 1 None] d0 by simp
  have 4: "logestimators 1 [1, 1, 1, 1] [0, 0, 0, 0] [2] [3] None = Inl ZeroDivisionError"
    using aicc_without_guard[of "[1, 1, 1, 1]" "[0, 0, 0, 0]" "[1, 1, 1, 1]" "[3]" "[2]" 1 None]
      d4 by simp
  have 1: "\<exists>fs. logestimators 1 [1] [0] [2] [3] None = Inr fs \<and> f_aicc fs = [- 2]"
    using aicc_without_guard[of "[1]" "[0]" "[1]" "[3]" "[2]" 1 None] d1
    by (auto simp add: empty_functionals_def)
  from 0 4 1 show ?thesis by simp
qed

text \<open>
  Claim C3 as stated fails: a signal of one point fitted with one non-linear and one
  linear parameter has \<open>N - Q - 1 = - 3\<close>, and the stage returns the number \<open>- 2\<close> as its
  AICc, next to an AIC of 6.
\<close>

theorem aicc_computed_when_degenerate:
  "logestimators 1 [1] [0] [2] [3] None
     = Inr \<lparr>f_rmsd = [1], f_aic = [6], f_aicc = [- 2], f_bic = [0]\<rparr>"
  by (simp add: logestimators_def Let_def np_broadcast2_def empty_functionals_def)

subsection \<open>The rounds of the loop\<close>

text \<open>What a round that returns has computed.\<close>

lemma candidate_stepE:
  assumes "candidate_step env inp st N (c, g) = Inr (c', g')"
  obtains par0 pnonlin plin_scaled Kfit Vf Pf Vcur le where
    "draw_start env g (nlin_lower inp st N) (nlin_upper inp st N) = Inr (par0, g')"
    "snlls env (map (\<lambda>v. v * scale) (in_V inp)) (\<lambda>par. nonlinmodel env inp st par N) par0
       (nlin_lower inp st N) (nlin_upper inp st N) (replicate N 1) (replicate N PosInf)
       = Inr (pnonlin, plin_scaled)"
    "nonlinmodel env inp st pnonlin N = Inr Kfit"
    "matvec Kfit (map (\<lambda>v. v / scale) plin_scaled) = Inr Vf"
    "Pmodel env inp st pnonlin (map (\<lambda>v. v / scale) plin_scaled) = Inr Pf"
    "py_get (Vfit_all c @ [Vf]) (N - 1) = Inr Vcur"
    "logestimators (in_weights inp) (in_V inp) Vcur (map (\<lambda>v. v / scale) plin_scaled) pnonlin
       (logest c) = Inr le"
    "c' = \<lparr>Vfit_all = Vfit_all c @ [Vf], Pfit_all = Pfit_all c @ [Pf],
           plin_all = plin_all c @ [map (\<lambda>v. v / scale) plin_scaled],
           pnonlin_all = pnonlin_all c @ [pnonlin],
           nlin_ub_all = nlin_ub_all c @ [nlin_upper inp st N],
           nlin_lb_all = nlin_lb_all c @ [nlin_lower inp st N],
           lin_ub_all = lin_ub_all c @ [replicate N PosInf],
           lin_lb_all = lin_lb_all c @ [replicate N 1], logest = Some le\<rparr>"
  using assms
  unfolding candidate_step_def Let_def
  by (auto simp: bindE_eq_Inr split: prod.splits)

text \<open>
  An invariant of the rounds: \<open>I N\<close> is about the state after the round for \<open>N\<close>
  components.
\<close>

lemma candidate_loop_invariant:
  assumes run: "candidate_loop env inp st [Suc m..<Suc n] cg = Inr cg'"
    and le: "m \<le> n"
    and base: "I m cg"
    and step: "\<And>N a b. N < n \<Longrightarrow> I N a
                 \<Longrightarrow> candidate_step env inp st (Suc N) a = Inr b \<Longrightarrow> I (Suc N) b"
  shows "I n cg'"
  using run le base
proof (induction "n - m" arbitrary: m cg)
  case 0
  then show ?case by simp
next
  case (Suc d)
  then have lt: "m < n" by simp
  then have upt: "[Suc m..<Suc n] = Suc m # [Suc (Suc m)..<Suc n]"
    by (simp add: upt_conv_Cons)
  from Suc.prems(1) obtain b where
    b: "candidate_step env inp st (Suc m) cg = Inr b"
    and rest: "candidate_loop env inp st [Suc (Suc m)..<Suc n] b = Inr cg'"
    unfolding upt by (auto split: sum.splits)
  have Ib: "I (Suc m) b"
    by (rule step[OF lt Suc.prems(3) b])
  have d: "d = n - Suc m" using Suc.hyps(2) by simp
  have le': "Suc m \<le> n" using lt by simp
  show ?case
    by (rule Suc.hyps(1)[OF d rest le' Ib])
qed

subsection \<open>The loop on the concrete instance\<close>

lemma demo_nonlinmodel_1:
  "nonlinmodel demo_env demo_inp demo_st [0] 1 = Inr [[0], [0], [0], [0], [0]]"
  by (simp add: nonlinmodel_def demo_env_def demo_inp_def demo_st_def np_take_def kernel_call_def
      matvec_def from_columns_def upt_rec)

lemma demo_nonlinmodel_2:
  "nonlinmodel demo_env demo_inp demo_st [0, 0] 2
     = Inr [[0, 0], [0, 0], [0, 0], [0, 0], [0, 0]]"
  by (simp add: nonlinmodel_def demo_env_def demo_inp_def demo_st_def np_take_def kernel_call_def
      matvec_def from_columns_def upt_rec numeral_2_eq_2)

lemma demo_Pmodel_1:
  "Pmodel demo_env demo_inp demo_st [0] [1 / 100] = Inr (Arr [1 / 100, 1 / 100])"
  by (simp add: Pmodel_def demo_env_def demo_inp_def demo_st_def np_take_def nd_add_def upt_rec)

lemma demo_Pmodel_2:
  "Pmodel demo_env demo_inp demo_st [0, 0] [1 / 100, 1 / 100] = Inr (Arr [1 / 50, 1 / 50])"
  by (simp add: Pmodel_def demo_env_def demo_inp_def demo_st_def np_take_def nd_add_def upt_rec
      np_broadcast2_def)

lemma demo_logest_1:
  "logestimators 1 [1, 1, 1, 1, 1] [0, 0, 0, 0, 0] [1 / 100] [0] None
     = Inr \<lparr>f_rmsd = [1], f_aic = [6], f_aicc = [30], f_bic = [3 * ln 5]\<rparr>"
  by (simp add: logestimators_def Let_def np_broadcast2_def empty_functionals_def)

lemma demo_logest_2:
  "logestimators 1 [1, 1, 1, 1, 1] [0, 0, 0, 0, 0] [1 / 100, 1 / 100] [0, 0]
     (Some \<lparr>f_rmsd = [1], f_aic = [6], f_aicc = [30], f_bic = [3 * ln 5]\<rparr>)
     = Inr \<lparr>f_rmsd = [1, 1], f_aic = [6, 10], f_aicc = [30, - 50],
            f_bic = [3 * ln 5, 5 * ln 5]\<rparr>"
  by (simp add: logestimators_def Let_def np_broadcast2_def)

lemma demo_step_1:
  "candidate_step demo_env demo_inp demo_st 1 (empty_candidates, g) = Inr (demo_c1, 2)"
proof -
  have e: "seed demo_env = (\<lambda>k. k)" "uniform_box demo_env = (\<lambda>g n lo hi. Inr (lo, g + n))"
    "snlls demo_env = (\<lambda>y A par0 lb ub lbl ubl. Inr (par0, lbl))"
    by (simp_all add: demo_env_def)
  have i: "in_lbK demo_inp = []" "in_ubK demo_inp = []" "in_V demo_inp = [1, 1, 1, 1, 1]"
    "in_weights demo_inp = 1"
    by (simp_all add: demo_inp_def)
  have s: "lb0 demo_st = [0]" "ub0 demo_st = [2]"
    by (simp_all add: demo_st_def)
  show ?thesis
    by (simp add: candidate_step_def Let_def draw_start_def nlin_lower_def nlin_upper_def e i s
        scale_def demo_nonlinmodel_1[unfolded One_nat_def] demo_Pmodel_1 matvec_def py_get_def empty_candidates_def
        demo_logest_1 demo_c1_def)
qed

lemma demo_step_2:
  "candidate_step demo_env demo_inp demo_st 2 (demo_c1, g) = Inr (demo_c2, 3)"
proof -
  have e: "seed demo_env = (\<lambda>k. k)" "uniform_box demo_env = (\<lambda>g n lo hi. Inr (lo, g + n))"
    "snlls demo_env = (\<lambda>y A par0 lb ub lbl ubl. Inr (par0, lbl))"
    by (simp_all add: demo_env_def)
  have i: "in_lbK demo_inp = []" "in_ubK demo_inp = []" "in_V demo_inp = [1, 1, 1, 1, 1]"
    "in_weights demo_inp = 1"
    by (simp_all add: demo_inp_def)
  have s: "lb0 demo_st = [0]" "ub0 demo_st = [2]"
    by (simp_all add: demo_st_def)
  show ?thesis
    by (simp add: candidate_step_def Let_def draw_start_def nlin_lower_def nlin_upper_def e i s
        scale_def demo_nonlinmodel_2[unfolded numeral_2_eq_2] demo_Pmodel_2 matvec_def py_get_def demo_c1_def
        demo_logest_2 demo_c2_def numeral_2_eq_2)
qed

lemma demo_loop:
  "candidate_loop demo_env demo_inp demo_st [1..<2 + 1] (empty_candidates, g) = Inr (demo_c2, 3)"
proof -
  have "[1..<2 + 1] = [1, 2::nat]" by (simp add: upt_rec)
  then show ?thesis
    using demo_step_1 demo_step_2 by simp
qed

subsection \<open>Invariants of the loop\<close>

lemma logestimators_InrE:
  assumes "logestimators w V Vfit plin pnonlin fo = Inr le"
  obtains d where "np_broadcast2 (-) V Vfit = Inr d" "V \<noteq> []"
    "int (length V) - (int (length pnonlin) + int (length plin) + 1) - 1 \<noteq> 0"
  using assms unfolding logestimators_def Let_def
  by (auto simp: bindE_eq_Inr split: if_splits)

lemma logestimators_fresh:
  assumes "logestimators w V Vfit plin pnonlin fo = Inr le"
  shows "\<exists>a b c d. logestimators w V Vfit plin pnonlin None
             = Inr \<lparr>f_rmsd = [a], f_aic = [b], f_aicc = [c], f_bic = [d]\<rparr>
         \<and> f_rmsd le = f_rmsd (case fo of None \<Rightarrow> empty_functionals | Some x \<Rightarrow> x) @ [a]
         \<and> f_aic le = f_aic (case fo of None \<Rightarrow> empty_functionals | Some x \<Rightarrow> x) @ [b]
         \<and> f_aicc le = f_aicc (case fo of None \<Rightarrow> empty_functionals | Some x \<Rightarrow> x) @ [c]
         \<and> f_bic le = f_bic (case fo of None \<Rightarrow> empty_functionals | Some x \<Rightarrow> x) @ [d]"
proof -
  from assms obtain d where d: "np_broadcast2 (-) V Vfit = Inr d" "V \<noteq> []"
    "int (length V) - (int (length pnonlin) + int (length plin) + 1) - 1 \<noteq> 0"
    by (rule logestimators_InrE)
  show ?thesis
    using assms
    unfolding logestimators_value[OF d, of w fo] logestimators_value[OF d, of w None]
    by (auto simp: empty_functionals_def)
qed

lemma containers_hold_empty: "containers_hold 0 empty_candidates"
  by (simp add: containers_hold_def empty_candidates_def)

lemma containers_hold_step:
  assumes inv: "containers_hold N (fst a)"
    and step: "candidate_step env inp st (Suc N) a = Inr b"
  shows "containers_hold (Suc N) (fst b)"
proof -
  obtain c g where a: "a = (c, g)" by (cases a)
  obtain c' g' where b: "b = (c', g')" by (cases b)
  from step[unfolded a b] show ?thesis
  proof (rule candidate_stepE)
    fix par0 pnonlin plin_scaled Kfit Vf Pf Vcur le
    assume le: "logestimators (in_weights inp) (in_V inp) Vcur
                  (map (\<lambda>v. v / scale) plin_scaled) pnonlin (logest c) = Inr le"
      and c': "c' = \<lparr>Vfit_all = Vfit_all c @ [Vf], Pfit_all = Pfit_all c @ [Pf],
           plin_all = plin_all c @ [map (\<lambda>v. v / scale) plin_scaled],
           pnonlin_all = pnonlin_all c @ [pnonlin],
           nlin_ub_all = nlin_ub_all c @ [nlin_upper inp st (Suc N)],
           nlin_lb_all = nlin_lb_all c @ [nlin_lower inp st (Suc N)],
           lin_ub_all = lin_ub_all c @ [replicate (Suc N) PosInf],
           lin_lb_all = lin_lb_all c @ [replicate (Suc N) 1], logest = Some le\<rparr>"
    from logestimators_fresh[OF le] inv
    show ?thesis
      unfolding b a c'
      by (auto simp: containers_hold_def empty_functionals_def split: option.splits)
  qed
qed

lemma loop_containers:
  assumes "candidate_loop env inp st [1..<n + 1] (empty_candidates, g) = Inr (c, g')"
  shows "containers_hold n c"
proof -
  have run: "candidate_loop env inp st [Suc 0..<Suc n] (empty_candidates, g) = Inr (c, g')"
    using assms by simp
  have "containers_hold n (fst (c, g'))"
    by (rule candidate_loop_invariant[where I = "\<lambda>N a. containers_hold N (fst a)", OF run])
       (simp_all add: containers_hold_empty containers_hold_step)
  then show ?thesis by simp
qed

lemma nth_snoc: "length xs = n \<Longrightarrow> (xs @ [x]) ! n = x"
  by auto

text \<open>The entry a round appends is the fit of that round; the older entries stay.\<close>

lemma fitted_entry_new:
  assumes inv: "containers_hold N c"
    and step: "candidate_step env inp st (Suc N) (c, g) = Inr (c', g')"
  shows "fitted_entry env inp st c' N"
  using step
proof (rule candidate_stepE)
  fix par0 pnonlin plin_scaled Kfit Vf Pf Vcur le
  assume dr: "draw_start env g (nlin_lower inp st (Suc N)) (nlin_upper inp st (Suc N))
                = Inr (par0, g')"
    and sn: "snlls env (map (\<lambda>v. v * scale) (in_V inp)) (\<lambda>par. nonlinmodel env inp st par (Suc N))
       par0 (nlin_lower inp st (Suc N)) (nlin_upper inp st (Suc N)) (replicate (Suc N) 1)
       (replicate (Suc N) PosInf) = Inr (pnonlin, plin_scaled)"
    and nl: "nonlinmodel env inp st pnonlin (Suc N) = Inr Kfit"
    and mv: "matvec Kfit (map (\<lambda>v. v / scale) plin_scaled) = Inr Vf"
    and pm: "Pmodel env inp st pnonlin (map (\<lambda>v. v / scale) plin_scaled) = Inr Pf"
    and pg: "py_get (Vfit_all c @ [Vf]) (Suc N - 1) = Inr Vcur"
    and le: "logestimators (in_weights inp) (in_V inp) Vcur
                  (map (\<lambda>v. v / scale) plin_scaled) pnonlin (logest c) = Inr le"
    and c': "c' = \<lparr>Vfit_all = Vfit_all c @ [Vf], Pfit_all = Pfit_all c @ [Pf],
           plin_all = plin_all c @ [map (\<lambda>v. v / scale) plin_scaled],
           pnonlin_all = pnonlin_all c @ [pnonlin],
           nlin_ub_all = nlin_ub_all c @ [nlin_upper inp st (Suc N)],
           nlin_lb_all = nlin_lb_all c @ [nlin_lower inp st (Suc N)],
           lin_ub_all = lin_ub_all c @ [replicate (Suc N) PosInf],
           lin_lb_all = lin_lb_all c @ [replicate (Suc N) 1], logest = Some le\<rparr>"
  have len: "length (Vfit_all c) = N" "length (Pfit_all c) = N" "length (plin_all c) = N"
    "length (pnonlin_all c) = N" "length (nlin_ub_all c) = N" "length (nlin_lb_all c) = N"
    "length (lin_ub_all c) = N" "length (lin_lb_all c) = N"
    using inv by (simp_all add: containers_hold_def)
  have flen: "length (f_rmsd (case logest c of None \<Rightarrow> empty_functionals | Some x \<Rightarrow> x)) = N"
    "length (f_aic (case logest c of None \<Rightarrow> empty_functionals | Some x \<Rightarrow> x)) = N"
    "length (f_aicc (case logest c of None \<Rightarrow> empty_functionals | Some x \<Rightarrow> x)) = N"
    "length (f_bic (case logest c of None \<Rightarrow> empty_functionals | Some x \<Rightarrow> x)) = N"
    using inv by (auto simp: containers_hold_def empty_functionals_def split: option.splits)
  have Vcur: "Vcur = Vf"
    using pg len(1) by (auto simp: py_get_def nth_append)
  from logestimators_fresh[OF le] obtain a b cc d where
    fresh: "logestimators (in_weights inp) (in_V inp) Vcur (map (\<lambda>v. v / scale) plin_scaled)
              pnonlin None = Inr \<lparr>f_rmsd = [a], f_aic = [b], f_aicc = [cc], f_bic = [d]\<rparr>"
    and app: "f_rmsd le = f_rmsd (case logest c of None \<Rightarrow> empty_functionals | Some x \<Rightarrow> x) @ [a]"
      "f_aic le = f_aic (case logest c of None \<Rightarrow> empty_functionals | Some x \<Rightarrow> x) @ [b]"
      "f_aicc le = f_aicc (case logest c of None \<Rightarrow> empty_functionals | Some x \<Rightarrow> x) @ [cc]"
      "f_bic le = f_bic (case logest c of None \<Rightarrow> empty_functionals | Some x \<Rightarrow> x) @ [d]"
    by blast
  have nth: "f_rmsd le ! N = a" "f_aic le ! N = b" "f_aicc le ! N = cc" "f_bic le ! N = d"
    using app flen by (simp_all add: nth_append)
  have dr': "uniform_box env (seed env 1) (length (nlin_lower inp st (Suc N)))
          (nlin_lower inp st (Suc N)) (nlin_upper inp st (Suc N)) = Inr (par0, g')"
    using dr by (simp add: draw_start_def)
  show ?thesis
    unfolding fitted_entry_def
    apply (rule exI[of _ par0], rule exI[of _ g'], rule exI[of _ plin_scaled],
           rule exI[of _ Kfit], rule exI[of _ le])
    using dr' sn nl mv pm fresh nth len
    by (simp add: c' Vcur nth_snoc)
qed

lemma fitted_entry_keep:
  assumes inv: "containers_hold N c"
    and step: "candidate_step env inp st (Suc N) (c, g) = Inr (c', g')"
    and k: "k < N"
    and old: "fitted_entry env inp st c k"
  shows "fitted_entry env inp st c' k"
  using step
proof (rule candidate_stepE)
  fix par0 pnonlin plin_scaled Kfit Vf Pf Vcur le
  assume le: "logestimators (in_weights inp) (in_V inp) Vcur
                  (map (\<lambda>v. v / scale) plin_scaled) pnonlin (logest c) = Inr le"
    and c': "c' = \<lparr>Vfit_all = Vfit_all c @ [Vf], Pfit_all = Pfit_all c @ [Pf],
           plin_all = plin_all c @ [map (\<lambda>v. v / scale) plin_scaled],
           pnonlin_all = pnonlin_all c @ [pnonlin],
           nlin_ub_all = nlin_ub_all c @ [nlin_upper inp st (Suc N)],
           nlin_lb_all = nlin_lb_all c @ [nlin_lower inp st (Suc N)],
           lin_ub_all = lin_ub_all c @ [replicate (Suc N) PosInf],
           lin_lb_all = lin_lb_all c @ [replicate (Suc N) 1], logest = Some le\<rparr>"
  have len: "length (Vfit_all c) = N" "length (Pfit_all c) = N" "length (plin_all c) = N"
    "length (pnonlin_all c) = N" "length (nlin_ub_all c) = N" "length (nlin_lb_all c) = N"
    "length (lin_ub_all c) = N" "length (lin_lb_all c) = N"
    using inv by (simp_all add: containers_hold_def)
  from old obtain par0' gs ps Kf fs where o:
    "uniform_box env (seed env 1) (length (nlin_lower inp st (Suc k)))
          (nlin_lower inp st (Suc k)) (nlin_upper inp st (Suc k)) = Inr (par0', gs)"
    "snlls env (map (\<lambda>v. v * scale) (in_V inp)) (\<lambda>par. nonlinmodel env inp st par (Suc k))
          par0' (nlin_lower inp st (Suc k)) (nlin_upper inp st (Suc k))
          (replicate (Suc k) 1) (replicate (Suc k) PosInf)
          = Inr (pnonlin_all c ! k, ps)"
    "plin_all c ! k = map (\<lambda>v. v / scale) ps"
    "nonlinmodel env inp st (pnonlin_all c ! k) (Suc k) = Inr Kf"
    "matvec Kf (plin_all c ! k) = Inr (Vfit_all c ! k)"
    "Pmodel env inp st (pnonlin_all c ! k) (plin_all c ! k) = Inr (Pfit_all c ! k)"
    "nlin_lb_all c ! k = nlin_lower inp st (Suc k)"
    "nlin_ub_all c ! k = nlin_upper inp st (Suc k)"
    "lin_lb_all c ! k = replicate (Suc k) 1"
    "lin_ub_all c ! k = replicate (Suc k) PosInf"
    "logest c = Some fs"
    "logestimators (in_weights inp) (in_V inp) (Vfit_all c ! k) (plin_all c ! k)
          (pnonlin_all c ! k) None
          = Inr \<lparr>f_rmsd = [f_rmsd fs ! k], f_aic = [f_aic fs ! k],
                 f_aicc = [f_aicc fs ! k], f_bic = [f_bic fs ! k]\<rparr>"
    unfolding fitted_entry_def by blast
  have flen: "length (f_rmsd fs) = N" "length (f_aic fs) = N" "length (f_aicc fs) = N"
    "length (f_bic fs) = N"
    using inv o(11) by (simp_all add: containers_hold_def)
  from logestimators_fresh[OF le] o(11) obtain a b cc d where
    app: "f_rmsd le = f_rmsd fs @ [a]" "f_aic le = f_aic fs @ [b]"
      "f_aicc le = f_aicc fs @ [cc]" "f_bic le = f_bic fs @ [d]"
    by auto
  have nth: "f_rmsd le ! k = f_rmsd fs ! k" "f_aic le ! k = f_aic fs ! k"
    "f_aicc le ! k = f_aicc fs ! k" "f_bic le ! k = f_bic fs ! k"
    using app flen k by (simp_all add: nth_append)
  show ?thesis
    unfolding fitted_entry_def
    apply (rule exI[of _ par0'], rule exI[of _ gs], rule exI[of _ ps],
           rule exI[of _ Kf], rule exI[of _ le])
    using o(1-10,12) nth len k
    by (simp add: c' nth_append)
qed

lemma fitted_step:
  assumes inv: "containers_hold N (fst a) \<and> (\<forall>k<N. fitted_entry env inp st (fst a) k)"
    and step: "candidate_step env inp st (Suc N) a = Inr b"
  shows "containers_hold (Suc N) (fst b) \<and> (\<forall>k<Suc N. fitted_entry env inp st (fst b) k)"
proof -
  obtain c g where a: "a = (c, g)" by (cases a)
  obtain c' g' where b: "b = (c', g')" by (cases b)
  have h: "containers_hold N c" using inv a by simp
  have s: "candidate_step env inp st (Suc N) (c, g) = Inr (c', g')" using step a b by simp
  have 1: "containers_hold (Suc N) c'"
    using containers_hold_step[of N a env inp st b] inv step a b by simp
  have 2: "fitted_entry env inp st c' k" if "k < Suc N" for k
  proof (cases "k = N")
    case True
    then show ?thesis using fitted_entry_new[OF h s] by simp
  next
    case False
    with that have "k < N" by simp
    then show ?thesis using fitted_entry_keep[OF h s] inv a by simp
  qed
  show ?thesis using 1 2 b by simp
qed

text \<open>After \<open>n\<close> rounds every container holds \<open>n\<close> entries, each the fit of its round.\<close>

lemma loop_fitted:
  assumes "candidate_loop env inp st [1..<n + 1] (empty_candidates, g) = Inr (c, g')"
  shows "containers_hold n c \<and> (\<forall>k<n. fitted_entry env inp st c k)"
proof -
  have run: "candidate_loop env inp st [Suc 0..<Suc n] (empty_candidates, g) = Inr (c, g')"
    using assms by simp
  have "containers_hold n (fst (c, g')) \<and> (\<forall>k<n. fitted_entry env inp st (fst (c, g')) k)"
    by (rule candidate_loop_invariant[where
          I = "\<lambda>N a. containers_hold N (fst a) \<and> (\<forall>k<N. fitted_entry env inp st (fst a) k)",
          OF run])
       (simp_all add: containers_hold_empty fitted_step)
  then show ?thesis by simp
qed

subsection \<open>Selection\<close>

lemma functionals_get_names:
  assumes "m \<in> set [''aic'', ''aicc'', ''bic'', ''rmsd'']"
  shows "\<exists>xs. functionals_get fs m = Inr xs
           \<and> xs \<in> set [f_aic fs, f_aicc fs, f_bic fs, f_rmsd fs]"
  using assms by (auto simp: functionals_get_def)

text \<open>
  Claim C1. After a loop over the candidates 1 to \<open>n\<close> (\<open>n \<ge> 1\<close>) and for each of the
  four criterion names, the selection returns; the sequence it reads is the one of that
  name (\<^verbatim>\<open>'aic'\<close> the AIC values, \<^verbatim>\<open>'aicc'\<close> the AICc values, \<^verbatim>\<open>'bic'\<close> the BIC values and
  \<^verbatim>\<open>'rmsd'\<close> the RMSD values that the loop has accumulated) and has one value for each
  candidate; the index it picks is the first at which that sequence takes its least
  value; the optimal number of components is that index plus one; and the fitted
  signal, the distribution, the non-linear and linear parameters and the four bounds
  that it selects are the entries of the containers at that index.
\<close>

theorem selector_first_minimum:
  assumes loop: "candidate_loop env inp st [1..<n + 1] (empty_candidates, g) = Inr (c, g')"
    and n: "0 < n"
    and m: "m \<in> set [''aic'', ''aicc'', ''bic'', ''rmsd'']"
  shows "\<exists>sel fs. logest c = Some fs \<and> select_model m c = Inr sel
      \<and> functionals_get fs m = Inr (s_fcnals sel) \<and> length (s_fcnals sel) = n
      \<and> (m = ''aic'' \<longrightarrow> s_fcnals sel = f_aic fs)
      \<and> (m = ''aicc'' \<longrightarrow> s_fcnals sel = f_aicc fs)
      \<and> (m = ''bic'' \<longrightarrow> s_fcnals sel = f_bic fs)
      \<and> (m = ''rmsd'' \<longrightarrow> s_fcnals sel = f_rmsd fs)
      \<and> s_idx sel < n
      \<and> (\<forall>k<n. s_fcnals sel ! s_idx sel \<le> s_fcnals sel ! k)
      \<and> (\<forall>k<s_idx sel. s_fcnals sel ! s_idx sel < s_fcnals sel ! k)
      \<and> s_Nopt sel = s_idx sel + 1
      \<and> s_Pfit sel = Pfit_all c ! s_idx sel
      \<and> s_Vfit sel = Vfit_all c ! s_idx sel
      \<and> s_pnonlin sel = pnonlin_all c ! s_idx sel
      \<and> s_plin sel = plin_all c ! s_idx sel
      \<and> s_nlin_lb sel = nlin_lb_all c ! s_idx sel
      \<and> s_nlin_ub sel = nlin_ub_all c ! s_idx sel
      \<and> s_lin_lb sel = lin_lb_all c ! s_idx sel
      \<and> s_lin_ub sel = lin_ub_all c ! s_idx sel
      \<and> s_Peval sel = Pfit_all c"
proof -
  from loop_fitted[OF loop] have hold: "containers_hold n c" by simp
  with n obtain fs where fs: "logest c = Some fs"
    and flen: "length (f_rmsd fs) = n" "length (f_aic fs) = n" "length (f_aicc fs) = n"
      "length (f_bic fs) = n"
    by (auto simp: containers_hold_def split: option.splits)
  from functionals_get_names[OF m, of fs] obtain xs where
    xs: "functionals_get fs m = Inr xs" and len: "length xs = n"
    using flen by auto
  have names: "m = ''aic'' \<longrightarrow> xs = f_aic fs" "m = ''aicc'' \<longrightarrow> xs = f_aicc fs"
    "m = ''bic'' \<longrightarrow> xs = f_bic fs" "m = ''rmsd'' \<longrightarrow> xs = f_rmsd fs"
    using xs by (auto simp: functionals_get_def)
  from len n have "xs \<noteq> []" by auto
  from np_argmin_spec[OF this] obtain j where
    j: "np_argmin xs = Inr j" "j < length xs" "\<forall>k<length xs. xs ! j \<le> xs ! k"
      "\<forall>k<j. xs ! j < xs ! k"
    by blast
  have lens: "length (Vfit_all c) = n" "length (Pfit_all c) = n" "length (plin_all c) = n"
    "length (pnonlin_all c) = n" "length (nlin_ub_all c) = n" "length (nlin_lb_all c) = n"
    "length (lin_ub_all c) = n" "length (lin_lb_all c) = n"
    using hold by (simp_all add: containers_hold_def)
  let ?sel = "\<lparr>s_idx = j, s_Nopt = j + 1, s_Peval = Pfit_all c, s_fcnals = xs,
               s_Pfit = Pfit_all c ! j, s_Vfit = Vfit_all c ! j, s_pnonlin = pnonlin_all c ! j,
               s_plin = plin_all c ! j, s_nlin_lb = nlin_lb_all c ! j,
               s_nlin_ub = nlin_ub_all c ! j, s_lin_lb = lin_lb_all c ! j,
               s_lin_ub = lin_ub_all c ! j\<rparr>"
  have sel: "select_model m c = Inr ?sel"
    using fs xs j(1,2) len lens by (simp add: select_model_def py_get_def)
  show ?thesis
    apply (rule exI[of _ ?sel], rule exI[of _ fs])
    using fs sel xs len j names by simp
qed

lemma demo_hold: "containers_hold 2 demo_c2"
  by (simp add: containers_hold_def demo_c2_def)

lemma first_of_two:
  fixes xs :: "real list"
  assumes "i < 2" and "\<forall>k<2. xs ! i \<le> xs ! k" and "\<forall>k<i. xs ! i < xs ! k"
  shows "i = (if xs ! 1 < xs ! 0 then 1 else 0)"
proof (cases "i = 0")
  case True
  with assms(2)[rule_format, of 1] show ?thesis by simp
next
  case False
  with assms(1) have i: "i = 1" by simp
  with assms(3)[rule_format, of 0] show ?thesis by simp
qed

theorem selector_first_minimum_witness:
  "(\<exists>sel. select_model ''rmsd'' demo_c2 = Inr sel \<and> s_fcnals sel = [1, 1] \<and> s_idx sel = 0
      \<and> s_Nopt sel = 1 \<and> s_plin sel = [1 / 100] \<and> s_Pfit sel = Arr [1 / 100, 1 / 100])
   \<and> (\<exists>sel. select_model ''aic'' demo_c2 = Inr sel \<and> s_fcnals sel = [6, 10] \<and> s_idx sel = 0
      \<and> s_Nopt sel = 1 \<and> s_plin sel = [1 / 100])
   \<and> (\<exists>sel. select_model ''aicc'' demo_c2 = Inr sel \<and> s_fcnals sel = [30, - 50]
      \<and> s_idx sel = 1 \<and> s_Nopt sel = 2 \<and> s_plin sel = [1 / 100, 1 / 100]
      \<and> s_Pfit sel = Arr [1 / 50, 1 / 50])"
proof -
  have fs: "logest demo_c2 = Some fs \<Longrightarrow> f_rmsd fs = [1, 1] \<and> f_aic fs = [6, 10]
      \<and> f_aicc fs = [30, - 50]" for fs
    by (auto simp: demo_c2_def)
  have m1: "''rmsd'' \<in> set [''aic'', ''aicc'', ''bic'', ''rmsd'']" by simp
  have m2: "''aic'' \<in> set [''aic'', ''aicc'', ''bic'', ''rmsd'']" by simp
  have m3: "''aicc'' \<in> set [''aic'', ''aicc'', ''bic'', ''rmsd'']" by simp
  have 1: "\<exists>sel. select_model ''rmsd'' demo_c2 = Inr sel \<and> s_fcnals sel = [1, 1]
      \<and> s_idx sel = 0 \<and> s_Nopt sel = 1 \<and> s_plin sel = [1 / 100]
      \<and> s_Pfit sel = Arr [1 / 100, 1 / 100]"
  proof -
    from selector_first_minimum[OF demo_loop[of 0] _ m1]
    obtain sel fs where s: "logest demo_c2 = Some fs" "select_model ''rmsd'' demo_c2 = Inr sel"
      "s_fcnals sel = f_rmsd fs" "s_idx sel < 2"
      "\<forall>k<2. s_fcnals sel ! s_idx sel \<le> s_fcnals sel ! k"
      "\<forall>k<s_idx sel. s_fcnals sel ! s_idx sel < s_fcnals sel ! k"
      "s_Nopt sel = s_idx sel + 1" "s_plin sel = plin_all demo_c2 ! s_idx sel"
      "s_Pfit sel = Pfit_all demo_c2 ! s_idx sel"
      by auto
    from s(3) fs[OF s(1)] have f: "s_fcnals sel = [1, 1]" by simp
    from first_of_two[OF s(4,5,6)] f have i: "s_idx sel = 0" by simp
    show ?thesis
      using s(2,7,8,9) f i by (intro exI[of _ sel]) (simp add: demo_c2_def)
  qed
  have 2: "\<exists>sel. select_model ''aic'' demo_c2 = Inr sel \<and> s_fcnals sel = [6, 10]
      \<and> s_idx sel = 0 \<and> s_Nopt sel = 1 \<and> s_plin sel = [1 / 100]"
  proof -
    from selector_first_minimum[OF demo_loop[of 0] _ m2]
    obtain sel fs where s: "logest demo_c2 = Some fs" "select_model ''aic'' demo_c2 = Inr sel"
      "s_fcnals sel = f_aic fs" "s_idx sel < 2"
      "\<forall>k<2. s_fcnals sel ! s_idx sel \<le> s_fcnals sel ! k"
      "\<forall>k<s_idx sel. s_fcnals sel ! s_idx sel < s_fcnals sel ! k"
      "s_Nopt sel = s_idx sel + 1" "s_plin sel = plin_all demo_c2 ! s_idx sel"
      by auto
    from s(3) fs[OF s(1)] have f: "s_fcnals sel = [6, 10]" by simp
    from first_of_two[OF s(4,5,6)] f have i: "s_idx sel = 0" by simp
    show ?thesis
      using s(2,7,8) f i by (intro exI[of _ sel]) (simp add: demo_c2_def)
  qed
  have 3: "\<exists>sel. select_model ''aicc'' demo_c2 = Inr sel \<and> s_fcnals sel = [30, - 50]
      \<and> s_idx sel = 1 \<and> s_Nopt sel = 2 \<and> s_plin sel = [1 / 100, 1 / 100]
      \<and> s_Pfit sel = Arr [1 / 50, 1 / 50]"
  proof -
    from selector_first_minimum[OF demo_loop[of 0] _ m3]
    obtain sel fs where s: "logest demo_c2 = Some fs" "select_model ''aicc'' demo_c2 = Inr sel"
      "s_fcnals sel = f_aicc fs" "s_idx sel < 2"
      "\<forall>k<2. s_fcnals sel ! s_idx sel \<le> s_fcnals sel ! k"
      "\<forall>k<s_idx sel. s_fcnals sel ! s_idx sel < s_fcnals sel ! k"
      "s_Nopt sel = s_idx sel + 1" "s_plin sel = plin_all demo_c2 ! s_idx sel"
      "s_Pfit sel = Pfit_all demo_c2 ! s_idx sel"
      by auto
    from s(3) fs[OF s(1)] have f: "s_fcnals sel = [30, - 50]" by simp
    from first_of_two[OF s(4,5,6)] f have i: "s_idx sel = 1" by simp
    show ?thesis
      using s(2,7,8,9) f i by (intro exI[of _ sel]) (simp add: demo_c2_def)
  qed
  from 1 2 3 show ?thesis by (intro conjI)
qed

subsection \<open>The estimators in the loop\<close>



subsection \<open>The stored amplitudes\<close>

lemma box_ok_amplitudes: "box_ok (replicate N 1) (replicate N PosInf)"
  by (simp add: box_ok_def below_def list_all_iff)

lemma within_box_amplitudes:
  assumes "within_box pl (replicate N 1) (replicate N PosInf)"
  shows "length pl = N \<and> (\<forall>a\<in>set pl. 1 \<le> a)"
proof -
  from assms have len: "length pl = N" and all: "\<forall>i<N. 1 \<le> pl ! i"
    by (auto simp: within_box_def list_all_iff)
  then show ?thesis by (auto simp: in_set_conv_nth)
qed

text \<open>
  Claim C2, as the code has it. With a solver that keeps its linear parameters in the
  box it is given, the vector of amplitudes stored for the candidate of \<open>k + 1\<close>
  components has length \<open>k + 1\<close>, and every entry is at least 1/100: the solver works on
  the signal times 100 with the lower bound 1, and line 274 divides what it returns by
  100 before it is stored.
\<close>

theorem amplitudes_floor:
  assumes solver: "solver_respects_box env"
    and loop: "candidate_loop env inp st [1..<n + 1] (empty_candidates, g) = Inr (c, g')"
    and k: "k < n"
  shows "length (plin_all c ! k) = k + 1 \<and> (\<forall>a\<in>set (plin_all c ! k). 1 / 100 \<le> a)"
proof -
  from loop_fitted[OF loop] k have "fitted_entry env inp st c k" by simp
  then obtain par0 ps where
    sn: "snlls env (map (\<lambda>v. v * scale) (in_V inp)) (\<lambda>par. nonlinmodel env inp st par (Suc k))
          par0 (nlin_lower inp st (Suc k)) (nlin_upper inp st (Suc k))
          (replicate (Suc k) 1) (replicate (Suc k) PosInf)
          = Inr (pnonlin_all c ! k, ps)"
    and pl: "plin_all c ! k = map (\<lambda>v. v / scale) ps"
    unfolding fitted_entry_def by blast
  from solver sn box_ok_amplitudes[of "Suc k"]
  have "within_box ps (replicate (Suc k) 1) (replicate (Suc k) PosInf)"
    unfolding solver_respects_box_def by blast
  from within_box_amplitudes[OF this]
  have "length ps = Suc k" "\<forall>a\<in>set ps. 1 \<le> a" by simp_all
  then show ?thesis
    unfolding pl by (auto simp: scale_def)
qed

lemma demo_solver_respects_box: "solver_respects_box demo_env"
  by (auto simp: solver_respects_box_def demo_env_def within_box_def box_ok_def list_all_iff)

theorem amplitudes_floor_witness:
  "length (plin_all demo_c2 ! 1) = 2 \<and> list_all (\<lambda>a. 1 / 100 \<le> a) (plin_all demo_c2 ! 1)"
proof -
  have k: "(1::nat) < 2" by simp
  from amplitudes_floor[OF demo_solver_respects_box demo_loop[of 0] k]
  show ?thesis by (simp add: list_all_iff)
qed

text \<open>
  Claim C2 as stated fails: on the concrete instance the solver returns the lower bound
  1, which is inside its box, and the amplitude stored for the first candidate is 1/100,
  not a number from 1 upwards.
\<close>

theorem amplitude_below_one:
  "solver_respects_box demo_env
   \<and> candidate_loop demo_env demo_inp demo_st [1..<2 + 1] (empty_candidates, 0)
       = Inr (demo_c2, 3)
   \<and> plin_all demo_c2 ! 0 = [1 / 100] \<and> (1 / 100 :: real) < 1"
  using demo_solver_respects_box demo_loop[of 0] by (simp add: demo_c2_def)

subsection \<open>The stages of a call that returns\<close>

lemma engine_bodyE:
  assumes "engine_body env inp nK g = Inr (res, g')"
  obtains b cands sel uq h stats Pfit h' where
    "check_bounds nK (in_lbK inp) (in_ubK inp) = Inr ()"
    "resolve_bounds env inp = Inr b"
    "candidate_loop env inp (fit_context env nK b) [1..<in_maxModels inp + 1]
       (empty_candidates, g) = Inr (cands, g')"
    "select_model (in_method inp) cands = Inr sel"
    "uq_stage env inp (fit_context env nK b) sel = Inr (uq, h)"
    "gof_stage env inp (fit_context env nK b) sel = Inr stats"
    "normalize_stage inp sel uq h = Inr (Pfit, h')"
    "res = \<lparr>r_Pfit = Pfit, r_fitparam = pack_params (fit_context env nK b) sel,
            r_Puq = map_option fst uq, r_paramuq = map_option snd uq,
            r_fcnals = s_fcnals sel, r_Peval = s_Peval sel, r_stats = stats,
            r_store = h'\<rparr>"
  using assms unfolding engine_body_def Let_def
  by (auto simp: bindE_eq_Inr split: prod.splits)

lemma engine_bodyI:
  assumes "check_bounds nK (in_lbK inp) (in_ubK inp) = Inr ()"
    "resolve_bounds env inp = Inr b"
    "candidate_loop env inp (fit_context env nK b) [1..<in_maxModels inp + 1]
       (empty_candidates, g) = Inr (cands, g')"
    "select_model (in_method inp) cands = Inr sel"
    "uq_stage env inp (fit_context env nK b) sel = Inr (uq, h)"
    "gof_stage env inp (fit_context env nK b) sel = Inr stats"
    "normalize_stage inp sel uq h = Inr (Pfit, h')"
  shows "engine_body env inp nK g =
     Inr (\<lparr>r_Pfit = Pfit, r_fitparam = pack_params (fit_context env nK b) sel,
            r_Puq = map_option fst uq, r_paramuq = map_option snd uq,
            r_fcnals = s_fcnals sel, r_Peval = s_Peval sel, r_stats = stats,
            r_store = h'\<rparr>, g')"
  using assms unfolding engine_body_def Let_def by simp

subsection \<open>The whole call on the concrete instance\<close>

lemma demo_check: "check_bounds 0 (in_lbK demo_inp) (in_ubK demo_inp) = Inr ()"
  by (simp add: check_bounds_def py_int_is_def demo_inp_def)

lemma demo_resolve: "resolve_bounds demo_env demo_inp = Inr ([0], [2])"
  by (simp add: resolve_bounds_def demo_env_def demo_inp_def demo_info_def Let_def)

lemma demo_ctx: "fit_context demo_env 0 ([0], [2]) = demo_st"
  by (simp add: fit_context_def demo_env_def demo_info_def demo_st_def)

lemma demo_select: "select_model ''aicc'' demo_c2 = Inr demo_sel"
  by (simp add: select_model_def demo_c2_def functionals_get_def np_argmin_def py_get_def
      demo_sel_def)

lemma demo_uq: "uq_stage demo_env demo_inp demo_st demo_sel = Inr (Some (1, 0), demo_store)"
proof -
  have e: "jacobianest demo_env = (\<lambda>f p. Inr [[0], [0], [0], [0], [0]])"
    "hccm demo_env = (\<lambda>J res. Inr ())" "UncertQuant demo_env = (\<lambda>x c lb ub. Inr 0)"
    "propagate demo_env = (\<lambda>u f z. Inr 1)"
    by (simp_all add: demo_env_def)
  have i: "in_uqanalysis demo_inp" "in_V demo_inp = [1, 1, 1, 1, 1]" "in_weights demo_inp = 1"
    "in_r demo_inp = [0, 2]"
    by (simp_all add: demo_inp_def)
  have s: "s_Nopt demo_sel = 2" "s_pnonlin demo_sel = [0, 0]" "s_Vfit demo_sel = [0, 0, 0, 0, 0]"
    "s_plin demo_sel = [1 / 100, 1 / 100]"
    by (simp_all add: demo_sel_def)
  have t: "nKparam demo_st = 0" "nparam demo_st = 1"
    by (simp_all add: demo_st_def)
  show ?thesis
    by (simp add: uq_stage_def Let_def e i s t np_broadcast2_def demo_nonlinmodel_2
        matrix_scale_def hconcat_def alloc_def demo_store_def)
qed

lemma demo_gof: "gof_stage demo_env demo_inp demo_st demo_sel = Inr (StatsOne 2)"
  by (simp add: gof_stage_def demo_env_def demo_inp_def demo_st_def demo_sel_def np_take_def)

lemma demo_trapz: "np_trapz (Arr [1 / 50, 1 / 50]) [0, 2] = Inr (1 / 25)"
  by (simp add: np_trapz_def np_broadcast2_def)

lemma demo_normalize:
  "normalize_stage demo_inp demo_sel (Some (1, 0)) demo_store
     = Inr (Arr [1 / 2, 1 / 2], r_store demo_res)"
proof -
  have i: "in_normP demo_inp" "in_uqanalysis demo_inp" "in_r demo_inp = [0, 2]"
    by (simp_all add: demo_inp_def)
  have s: "s_Pfit demo_sel = Arr [1 / 50, 1 / 50]" by (simp add: demo_sel_def)
  show ?thesis
    by (simp add: normalize_stage_def i s demo_trapz nd_div_def deepcopy_def alloc_def
        demo_store_def demo_res_def)
qed

lemma demo_engine: "engine_body demo_env demo_inp 0 g = Inr (demo_res, 3)"
proof -
  have m: "in_maxModels demo_inp = 2" "in_method demo_inp = ''aicc''"
    by (simp_all add: demo_inp_def)
  have l: "candidate_loop demo_env demo_inp (fit_context demo_env 0 ([0], [2]))
       [1..<in_maxModels demo_inp + 1] (empty_candidates, g) = Inr (demo_c2, 3)"
    using demo_loop[of g] by (simp add: demo_ctx m)
  have sl: "select_model (in_method demo_inp) demo_c2 = Inr demo_sel"
    using demo_select by (simp add: m)
  have u: "uq_stage demo_env demo_inp (fit_context demo_env 0 ([0], [2])) demo_sel
             = Inr (Some (1, 0), demo_store)"
    using demo_uq by (simp add: demo_ctx)
  have gf: "gof_stage demo_env demo_inp (fit_context demo_env 0 ([0], [2])) demo_sel
             = Inr (StatsOne 2)"
    using demo_gof by (simp add: demo_ctx)
  show ?thesis
    unfolding engine_bodyI[OF demo_check demo_resolve l sl u gf demo_normalize]
    by (simp add: demo_ctx pack_params_def py_slice_def demo_sel_def demo_st_def demo_res_def)
qed

subsection \<open>The packed parameters\<close>

text \<open>
  Indexing with \<^verbatim>\<open>np.arange\<close> raises past the end of the vector, so a call of
  \<^verbatim>\<open>nonlinmodel\<close> that returns was given at least \<open>nKparam + N * nparam\<close> parameters.
\<close>

lemma np_take_upt_length:
  assumes "np_take a [i..<j] = Inr v" and "i < j"
  shows "j \<le> length a"
proof -
  from assms(1) have "list_all (\<lambda>k. k < length a) [i..<j]"
    by (simp add: np_take_def split: if_splits)
  then have "\<forall>k. i \<le> k \<and> k < j \<longrightarrow> k < length a"
    by (simp add: list_all_iff)
  with assms(2) have "j - 1 < length a" by simp
  with assms(2) show ?thesis by simp
qed

lemma basis_columns_length:
  assumes "basis_columns env r np K par pu N = Inr cols" and "0 < N" and "0 < np"
  shows "pu + N * np \<le> length par"
  using assms
proof (induction N arbitrary: pu cols)
  case 0
  then show ?case by simp
next
  case (Suc N)
  from Suc.prems(1) obtain p rest where
    t: "np_take par [pu..<pu + np] = Inr p"
    and r: "basis_columns env r np K par (pu + np) N = Inr rest"
    by (auto split: sum.splits)
  show ?case
  proof (cases "N = 0")
    case True
    with np_take_upt_length[OF t] Suc.prems(3) show ?thesis by simp
  next
    case False
    with Suc.IH[OF r _ Suc.prems(3)] show ?thesis by (simp add: algebra_simps)
  qed
qed

lemma nonlinmodel_length:
  assumes "nonlinmodel env inp st par N = Inr K"
  shows "nKparam st + N * nparam st \<le> length par"
proof -
  from assms obtain kp Km cols where
    t: "np_take par [0..<nKparam st] = Inr kp"
    and c: "basis_columns env (in_r inp) (nparam st) Km par (nKparam st) N = Inr cols"
    unfolding nonlinmodel_def by (auto simp: bindE_eq_Inr)
  have nk: "nKparam st \<le> length par"
  proof (cases "nKparam st = 0")
    case True
    then show ?thesis by simp
  next
    case False
    then show ?thesis using np_take_upt_length[OF t] by simp
  qed
  show ?thesis
  proof (cases "0 < N \<and> 0 < nparam st")
    case True
    then show ?thesis using basis_columns_length[OF c] by simp
  next
    case False
    then show ?thesis using nk by auto
  qed
qed

text \<open>
  Claim C9. In every call that returns, the second part of the packed parameters is the
  slice \<^verbatim>\<open>pnonlin[nKparam : nKparam + nparam]\<close> of the selected candidate's non-linear
  vector and has length exactly \<open>nparam\<close>; that vector holds \<open>nKparam\<close> kernel
  parameters and then at least \<open>Nopt * nparam\<close> shape parameters, so for \<open>Nopt > 1\<close> the
  shape parameters of the components after the first are left out.
\<close>

theorem packed_shape_slice:
  assumes run: "engine_body env inp nK g = Inr (res, g')"
  shows "\<exists>b cands sel.
       resolve_bounds env inp = Inr b
     \<and> candidate_loop env inp (fit_context env nK b) [1..<in_maxModels inp + 1]
         (empty_candidates, g) = Inr (cands, g')
     \<and> select_model (in_method inp) cands = Inr sel
     \<and> r_fitparam res
         = (take nK (s_pnonlin sel),
            take (length (Start (model_info env))) (drop nK (s_pnonlin sel)),
            s_plin sel)
     \<and> length (fst (snd (r_fitparam res))) = length (Start (model_info env))
     \<and> 1 \<le> s_Nopt sel
     \<and> nK + s_Nopt sel * length (Start (model_info env)) \<le> length (s_pnonlin sel)"
  using run
proof (rule engine_bodyE)
  fix b cands sel uq h stats Pfit h'
  let ?st = "fit_context env nK b"
  let ?np = "length (Start (model_info env))"
  assume rb: "resolve_bounds env inp = Inr b"
    and loop: "candidate_loop env inp ?st [1..<in_maxModels inp + 1] (empty_candidates, g)
                = Inr (cands, g')"
    and sel: "select_model (in_method inp) cands = Inr sel"
    and res: "res = \<lparr>r_Pfit = Pfit, r_fitparam = pack_params ?st sel,
            r_Puq = map_option fst uq, r_paramuq = map_option snd uq,
            r_fcnals = s_fcnals sel, r_Peval = s_Peval sel, r_stats = stats,
            r_store = h'\<rparr>"
  from loop_fitted[OF loop] have hold: "containers_hold (in_maxModels inp) cands"
    and fit: "\<forall>k<in_maxModels inp. fitted_entry env inp ?st cands k" by simp_all
  from sel obtain idx where
    idx: "s_idx sel = idx" "s_Nopt sel = idx + 1" "py_get (pnonlin_all cands) idx = Inr (s_pnonlin sel)"
    unfolding select_model_def
    by (auto simp: bindE_eq_Inr split: option.splits)
  from idx(3) hold have lt: "idx < in_maxModels inp"
    and pn: "s_pnonlin sel = pnonlin_all cands ! idx"
    by (auto simp: py_get_def containers_hold_def split: if_splits)
  from fit lt obtain Kfit where "nonlinmodel env inp ?st (pnonlin_all cands ! idx) (Suc idx) = Inr Kfit"
    unfolding fitted_entry_def by blast
  from nonlinmodel_length[OF this]
  have len: "nK + Suc idx * ?np \<le> length (s_pnonlin sel)"
    by (simp add: fit_context_def pn)
  have fp: "r_fitparam res
         = (take nK (s_pnonlin sel), take ?np (drop nK (s_pnonlin sel)), s_plin sel)"
    by (simp add: res pack_params_def py_slice_def fit_context_def)
  have l2: "length (take ?np (drop nK (s_pnonlin sel))) = ?np"
    using len by simp
  show ?thesis
    apply (rule exI[of _ b], rule exI[of _ cands], rule exI[of _ sel])
    using rb loop sel fp l2 len idx(2) by simp
qed

theorem packed_shape_slice_witness:
  "\<exists>sel. select_model ''aicc'' demo_c2 = Inr sel \<and> s_Nopt sel = 2
     \<and> s_pnonlin sel = [0, 0]
     \<and> r_fitparam demo_res = ([], [0], [1 / 100, 1 / 100])
     \<and> length (fst (snd (r_fitparam demo_res))) = 1"
proof -
  from packed_shape_slice[OF demo_engine[of 0]]
  obtain b cands sel where s:
    "candidate_loop demo_env demo_inp (fit_context demo_env 0 b) [1..<in_maxModels demo_inp + 1]
         (empty_candidates, 0) = Inr (cands, 3)"
    "resolve_bounds demo_env demo_inp = Inr b"
    "select_model (in_method demo_inp) cands = Inr sel"
    "r_fitparam demo_res
         = (take 0 (s_pnonlin sel),
            take (length (Start (model_info demo_env))) (drop 0 (s_pnonlin sel)),
            s_plin sel)"
    "length (fst (snd (r_fitparam demo_res))) = length (Start (model_info demo_env))"
    by blast
  from s(2) have b: "b = ([0], [2])" by (simp add: demo_resolve)
  have m: "in_maxModels demo_inp = 2" "in_method demo_inp = ''aicc''"
    by (simp_all add: demo_inp_def)
  from s(1) have c: "cands = demo_c2"
    using demo_loop[of 0] by (simp add: b demo_ctx m)
  from s(3) have sl: "sel = demo_sel"
    by (simp add: c m demo_select)
  show ?thesis
    using s(4,5)
    by (intro exI[of _ demo_sel])
       (simp add: sl demo_select demo_sel_def demo_env_def demo_info_def)
qed

end
